theory Spec2Isabelle
  imports Main "HOL-Library.Word" "HOL-Library.Multiset"
begin

section \<open>Data model of the bitmap font descriptor\<close>

text \<open>
  Go's \<^verbatim>\<open>int\<close> is modelled as a 64-bit word (the size it has on the 64-bit targets
  of the Go toolchain): \<open>+\<close> and \<open>-\<close> wrap around as Go's do, \<open>sint\<close> reads the signed
  value and \<open><s\<close> is the signed comparison that Go's \<^verbatim>\<open><\<close> performs on \<^verbatim>\<open>int\<close>.
  A \<^verbatim>\<open>rune\<close> is an \<^verbatim>\<open>int32\<close>. The named integer types \<^verbatim>\<open>ChannelInfo\<close> and
  \<^verbatim>\<open>Channel\<close> are \<^verbatim>\<open>int\<close>s that may hold any value, not only the declared constants.
\<close>

type_synonym go_int = "64 word"
type_synonym rune = "32 word"
type_synonym ChannelInfo = go_int
type_synonym Channel = go_int

record Padding =
  Up :: go_int
  Right :: go_int
  Down :: go_int
  Left :: go_int

record Spacing =
  Horizontal :: go_int
  Vertical :: go_int

record Info =
  Face :: string
  Size :: go_int
  Bold :: bool
  Italic :: bool
  Charset :: string
  Unicode :: bool
  StretchH :: go_int
  Smooth :: bool
  AA :: go_int
  Padding :: Padding
  Spacing :: Spacing
  Outline :: go_int

record Common =
  LineHeight :: go_int
  Base :: go_int
  ScaleW :: go_int
  ScaleH :: go_int
  Packed :: bool
  AlphaChannel :: ChannelInfo
  RedChannel :: ChannelInfo
  GreenChannel :: ChannelInfo
  BlueChannel :: ChannelInfo

record Page =
  ID :: go_int
  File :: string

record Char =
  ID :: rune
  X :: go_int
  Y :: go_int
  Width :: go_int
  Height :: go_int
  XOffset :: go_int
  YOffset :: go_int
  XAdvance :: go_int
  Page :: go_int
  Channel :: Channel

record CharPair =
  First :: rune
  Second :: rune

record Kerning =
  Amount :: go_int

text \<open>
  The three Go maps of a descriptor are partial functions. A nil map and an empty map
  behave alike in everything modelled here (\<^verbatim>\<open>len\<close> is 0 and \<^verbatim>\<open>range\<close> runs no
  iteration), so both are \<open>Map.empty\<close>.
\<close>

record Descriptor =
  Info :: Info
  Common :: Common
  Pages :: "go_int \<rightharpoonup> Page"
  Chars :: "rune \<rightharpoonup> Char"
  Kerning :: "CharPair \<rightharpoonup> Kerning"

record Point =
  PX :: go_int
  PY :: go_int

text \<open>\<^verbatim>\<open>image.Pt(X, Y)\<close> is shorthand for \<^verbatim>\<open>Point{X, Y}\<close>.\<close>

definition Pt :: "go_int \<Rightarrow> go_int \<Rightarrow> Point" where
  "Pt x y = \<lparr>PX = x, PY = y\<rparr>"

text \<open>
  A \<^verbatim>\<open>range\<close> over a Go map visits the entries in an order the runtime chooses anew
  for every loop. The iterations below therefore take the sequence of keys that the runtime
  produced as an argument. For a loop that creates no entry this sequence is an
  enumeration of the map's keys: each key once, in some order.
\<close>

definition enumerates :: "'k list \<Rightarrow> ('k \<rightharpoonup> 'v) \<Rightarrow> bool" where
  "enumerates ks m \<longleftrightarrow> distinct ks \<and> set ks = dom m"

text \<open>
  The parser stores every glyph under its own codepoint; the data model calls the
  \<^verbatim>\<open>Chars\<close> map "keyed by codepoint".
\<close>

definition keyed_by_id :: "(rune \<rightharpoonup> Char) \<Rightarrow> bool" where
  "keyed_by_id m \<longleftrightarrow> (\<forall>k c. m k = Some c \<longrightarrow> Char.ID c = k)"

section \<open>Geometric accessor of the page dimensions\<close>

definition Common_Scale :: "Common \<Rightarrow> Point" where
  "Common_Scale c = Pt (ScaleH c) (ScaleH c)"

section \<open>Rotation by 90 degrees clockwise\<close>

text \<open>
  The four assignments of the loop body to the loop variable \<^verbatim>\<open>char\<close>, in the order
  of the source. Each tuple assignment evaluates its right-hand side first.
\<close>

definition rotate_char :: "go_int \<Rightarrow> Char \<Rightarrow> Char" where
  "rotate_char scaleW char =
     (let c1 = char\<lparr>X := scaleW - Y char - Height char, Y := X char\<rparr>;
          c2 = c1\<lparr>XOffset := YOffset c1, YOffset := XOffset c1\<rparr>;
          c3 = c2\<lparr>Width := Height c2, Height := Width c2\<rparr>
      in c3\<lparr>XAdvance := Width c3 + XOffset c3\<rparr>)"

text \<open>
  One iteration of the loop, at the key \<open>k\<close> the runtime produced: the loop variable is
  a copy of the entry stored at \<open>k\<close> at that moment, \<^verbatim>\<open>lh\<close> grows to the rotated height
  if that is larger (signed comparison), and the rotated copy is stored under its own
  \<^verbatim>\<open>ID\<close> field, which is not necessarily \<open>k\<close>.
\<close>

definition Rotate_step :: "go_int \<Rightarrow> rune \<Rightarrow> (rune \<rightharpoonup> Char) \<times> go_int \<Rightarrow> (rune \<rightharpoonup> Char) \<times> go_int" where
  "Rotate_step scaleW k s =
     (case fst s k of
        None \<Rightarrow> s
      | Some char \<Rightarrow>
          (let char' = rotate_char scaleW char;
               lh = (if snd s <s Height char' then Height char' else snd s)
           in ((fst s)(Char.ID char' \<mapsto> char'), lh)))"

definition Rotate :: "Descriptor \<Rightarrow> rune list \<Rightarrow> Descriptor" where
  "Rotate d ks =
     (let p = Padding (Info d);
          sp = Spacing (Info d);
          info = (Info d)\<lparr>Padding := \<lparr>Up = Left p, Right = Up p, Down = Right p, Left = Down p\<rparr>\<rparr>;
          info = info\<lparr>Spacing := \<lparr>Horizontal = Vertical sp, Vertical = Horizontal sp\<rparr>\<rparr>;
          common = (Common d)\<lparr>ScaleW := ScaleH (Common d), ScaleH := ScaleW (Common d)\<rparr>;
          s = fold (Rotate_step (ScaleW common)) ks (Chars d, 0)
      in d\<lparr>Info := info,
           Common := common\<lparr>LineHeight := snd s, Base := snd s\<rparr>,
           Chars := fst s\<rparr>)"

section \<open>Sample descriptors\<close>

text \<open>
  Concrete descriptors on which the theorems below are instantiated: a font with one
  glyph on a 256 by 128 page, a font whose three glyphs are 30, 12 and 45 pixels wide,
  and a font whose only glyph has the width -1, which the parser accepts since it
  validates no bounding box.
\<close>

definition sample_info :: Info where
  "sample_info = \<lparr>Face = ''Arial'', Size = 32, Bold = False, Italic = False, Charset = [],
     Unicode = True, StretchH = 100, Smooth = True, AA = 1,
     Padding = \<lparr>Up = 1, Right = 2, Down = 3, Left = 4\<rparr>,
     Spacing = \<lparr>Horizontal = 5, Vertical = 7\<rparr>, Outline = 0\<rparr>"

definition sample_common :: Common where
  "sample_common = \<lparr>LineHeight = 32, Base = 26, ScaleW = 256, ScaleH = 128, Packed = False,
     AlphaChannel = 1, RedChannel = 0, GreenChannel = 0, BlueChannel = 0\<rparr>"

definition sample_char :: Char where
  "sample_char = \<lparr>ID = 65, X = 10, Y = 20, Width = 30, Height = 5, XOffset = 1, YOffset = 2,
     XAdvance = 31, Page = 0, Channel = 15\<rparr>"

definition sample_descriptor :: Descriptor where
  "sample_descriptor = \<lparr>Info = sample_info, Common = sample_common,
     Pages = [0 \<mapsto> \<lparr>Page.ID = 0, File = ''arial_0.png''\<rparr>],
     Chars = [65 \<mapsto> sample_char],
     Kerning = [\<lparr>First = 65, Second = 66\<rparr> \<mapsto> \<lparr>Amount = - 1\<rparr>]\<rparr>"

definition three_glyphs :: Descriptor where
  "three_glyphs = sample_descriptor\<lparr>Chars :=
     [65 \<mapsto> sample_char\<lparr>Width := 30\<rparr>,
      66 \<mapsto> sample_char\<lparr>ID := 66, Width := 12\<rparr>,
      67 \<mapsto> sample_char\<lparr>ID := 67, Width := 45\<rparr>]\<rparr>"

definition negative_width :: Descriptor where
  "negative_width = sample_descriptor\<lparr>Chars := [65 \<mapsto> sample_char\<lparr>Width := - 1\<rparr>]\<rparr>"

section \<open>Diagnostic serializer\<close>

text \<open>
  The two verbs of \<^verbatim>\<open>fmt.Sprintf\<close> that the serializer uses: \<^verbatim>\<open>%d\<close> prints a signed
  integer in decimal, with a minus sign when it is negative, and \<^verbatim>\<open>%s\<close> copies a
  string as it is.
\<close>

function digits :: "nat \<Rightarrow> string" where
  "digits n = (if n < 10 then [''0123456789'' ! n] else digits (n div 10) @ [''0123456789'' ! (n mod 10)])"
  by pat_completeness auto
termination
  by (relation "measure (\<lambda>n. n)") auto

declare digits.simps [simp del]

definition fmt_d :: "int \<Rightarrow> string" where
  "fmt_d i = (if i < 0 then CHR ''-'' # digits (nat (- i)) else digits (nat i))"

definition boolToInt :: "bool \<Rightarrow> go_int" where
  "boolToInt b = (if b then 1 else 0)"

text \<open>
  \<^verbatim>\<open>len\<close> of a map is its number of entries. It is an \<^verbatim>\<open>int\<close> that cannot overflow,
  since the entries are held in memory; it is modelled as an unbounded integer.
\<close>

definition len :: "('k \<rightharpoonup> 'v) \<Rightarrow> int" where
  "len m = int (card (dom m))"

definition Info_String :: "Info \<Rightarrow> string" where
  \<open>Info_String i =
     ''info face="'' @ Face i @ ''" size='' @ fmt_d (sint (Size i)) @
     '' bold='' @ fmt_d (sint (boolToInt (Bold i))) @
     '' italic='' @ fmt_d (sint (boolToInt (Italic i))) @
     '' charset="'' @ Charset i @ ''" unicode='' @ fmt_d (sint (boolToInt (Unicode i))) @
     '' stretchH='' @ fmt_d (sint (StretchH i)) @
     '' smooth='' @ fmt_d (sint (boolToInt (Smooth i))) @
     '' aa='' @ fmt_d (sint (AA i)) @
     '' padding='' @ fmt_d (sint (Up (Padding i))) @ '','' @ fmt_d (sint (Right (Padding i))) @
       '','' @ fmt_d (sint (Down (Padding i))) @ '','' @ fmt_d (sint (Left (Padding i))) @
     '' spacing='' @ fmt_d (sint (Horizontal (Spacing i))) @ '','' @ fmt_d (sint (Vertical (Spacing i))) @
     '' outline='' @ fmt_d (sint (Outline i))\<close>

definition printCommon :: "Common \<Rightarrow> (go_int \<rightharpoonup> Page) \<Rightarrow> string" where
  "printCommon c p =
     ''common lineHeight='' @ fmt_d (sint (LineHeight c)) @
     '' base='' @ fmt_d (sint (Base c)) @
     '' scaleW='' @ fmt_d (sint (ScaleW c)) @
     '' scaleH='' @ fmt_d (sint (ScaleH c)) @
     '' pages='' @ fmt_d (len p) @
     '' packed='' @ fmt_d (sint (boolToInt (Packed c))) @
     '' alphaChnl='' @ fmt_d (sint (AlphaChannel c)) @
     '' redChnl='' @ fmt_d (sint (RedChannel c)) @
     '' greenChnl='' @ fmt_d (sint (GreenChannel c)) @
     '' blueChnl='' @ fmt_d (sint (BlueChannel c))"

definition Page_String :: "Page \<Rightarrow> string" where
  \<open>Page_String p = ''page id='' @ fmt_d (sint (Page.ID p)) @ '' file="'' @ File p @ ''"''\<close>

definition Char_String :: "Char \<Rightarrow> string" where
  "Char_String c =
     ''char id='' @ fmt_d (sint (Char.ID c)) @
     '' x='' @ fmt_d (sint (X c)) @
     '' y='' @ fmt_d (sint (Y c)) @
     '' width='' @ fmt_d (sint (Width c)) @
     '' height='' @ fmt_d (sint (Height c)) @
     '' xoffset='' @ fmt_d (sint (XOffset c)) @
     '' yoffset='' @ fmt_d (sint (YOffset c)) @
     '' xadvance='' @ fmt_d (sint (XAdvance c)) @
     '' page='' @ fmt_d (sint (Page c)) @
     '' chnl='' @ fmt_d (sint (Channel c))"

text \<open>
  \<open>Descriptor_String d ps cs\<close> is \<^verbatim>\<open>d.String()\<close> in a run where the first \<^verbatim>\<open>range\<close>
  produces the page keys \<open>ps\<close> and the second the glyph keys \<open>cs\<close>. Both accumulate
  one line per entry by \<^verbatim>\<open>+=\<close>.
\<close>

definition Descriptor_String :: "Descriptor \<Rightarrow> go_int list \<Rightarrow> rune list \<Rightarrow> string" where
  "Descriptor_String d ps cs =
     (let pages = fold (\<lambda>k pages. case Pages d k of None \<Rightarrow> pages
                          | Some page \<Rightarrow> pages @ Page_String page @ [CHR 0x0A]) ps [];
          chars = ''chars count='' @ fmt_d (len (Chars d)) @ [CHR 0x0A];
          chars = fold (\<lambda>k chars. case Chars d k of None \<Rightarrow> chars
                          | Some char \<Rightarrow> chars @ Char_String char @ [CHR 0x0A]) cs chars
      in Info_String (Info d) @ [CHR 0x0A] @ printCommon (Common d) (Pages d) @ [CHR 0x0A] @
         pages @ chars)"

section \<open>Text parser and loading\<close>

text \<open>
  The sources hold the two entry points \<^verbatim>\<open>LoadDescriptor\<close> and \<^verbatim>\<open>ReadDescriptor\<close>;
  the parser \<^verbatim>\<open>parseDescriptor\<close> that both call is not among them. Everything in this
  section up to \<open>parseDescriptor\<close> is therefore written from sections 4.1 and 7 of the
  specification, and each part says so.
\<close>

text \<open>
  Modelled from the spec: the error kinds of \<^verbatim>\<open>parseDescriptor\<close> (section 7), with the
  errors that \<^verbatim>\<open>os.Open\<close> and \<^verbatim>\<open>Close\<close> report, which \<^verbatim>\<open>LoadDescriptor\<close> passes on
  unchanged. A malformed value is identified by the name of the source, the number of
  the line (from 1), the tag of the line and the key of the attribute.
\<close>

datatype error =
  SourceUnavailable
  | MalformedValue string nat string string
  | OSError string

text \<open>
  Modelled from the spec: the character source that \<^verbatim>\<open>parseDescriptor\<close> reads, as the
  lines that can be read from it and whether reading fails after the last of them; and
  the values of attributes before decoding (\<open>val\<close>), after decoding (\<open>dval\<close>) and
  their types (\<open>kind\<close>).
\<close>

record source =
  lines :: "string list"
  read_fails :: bool

datatype val = Bare string | Quoted string

datatype dval = DInt go_int | DStr string | DInts "go_int list"

datatype kind = IntK | StrK | IntsK nat

text \<open>
  Modelled from the spec: the character classes of the grammar that \<^verbatim>\<open>parseDescriptor\<close>
  reads (whitespace between attributes, decimal digits) and the value of a digit string.
\<close>

definition is_space :: "char \<Rightarrow> bool" where
  "is_space c \<longleftrightarrow> c = CHR '' '' \<or> c = CHR 0x09 \<or> c = CHR 0x0D"

definition is_digit :: "char \<Rightarrow> bool" where
  "is_digit c \<longleftrightarrow> c \<in> set ''0123456789''"

definition decimal :: "string \<Rightarrow> nat" where
  "decimal ds = foldl (\<lambda>n c. 10 * n + (of_char c - 48)) 0 ds"

text \<open>
  Modelled from the spec: the decoding of an integer token, which belongs to the parser
  \<^verbatim>\<open>parseDescriptor\<close>. A token is numeric when it is an optional sign followed by one
  or more decimal digits. The specification does not say what happens to a numeric token
  outside the range of \<^verbatim>\<open>int\<close>; the model rejects it, as a token that cannot be decoded.
\<close>

definition parse_int :: "string \<Rightarrow> go_int option" where
  "parse_int s =
     (let (neg, ds) = (case s of
                         [] \<Rightarrow> (False, [])
                       | c # r \<Rightarrow> if c = CHR ''-'' then (True, r)
                                  else if c = CHR ''+'' then (False, r) else (False, s))
      in if ds = [] \<or> \<not> list_all is_digit ds then None
         else (let i = (if neg then - int (decimal ds) else int (decimal ds))
               in if - (2 ^ 63) \<le> i \<and> i < 2 ^ 63 then Some (word_of_int i) else None))"

text \<open>
  Modelled from the spec: splitting the value of \<open>padding\<close> or \<open>spacing\<close>, read by
  \<^verbatim>\<open>parseDescriptor\<close>, at its commas.
\<close>

fun split_commas :: "string \<Rightarrow> string list" where
  "split_commas [] = [] # []"
| "split_commas (c # cs) =
     (if c = CHR '','' then [] # split_commas cs
      else (case split_commas cs of [] \<Rightarrow> [c] # [] | w # ws \<Rightarrow> (c # w) # ws))"

text \<open>
  Modelled from the spec: the tag keywords of \<^verbatim>\<open>parseDescriptor\<close> and, per tag, the keys with the type of their
  value (section 4.1 and the field lists of section 6). Boolean attributes are 0/1
  tokens and are decoded as integers. A key that is not listed is unknown.
\<close>

definition known_tags :: "string list" where
  "known_tags = [''info'', ''common'', ''page'', ''chars'', ''char'', ''kernings'', ''kerning'']"

definition attr_kind :: "string \<Rightarrow> string \<Rightarrow> kind option" where
  "attr_kind tag key =
     (if tag = ''info'' then
        (if key \<in> set [''face'', ''charset''] then Some StrK
         else if key \<in> set [''size'', ''bold'', ''italic'', ''unicode'', ''stretchH'', ''smooth'',
                             ''aa'', ''outline''] then Some IntK
         else if key = ''padding'' then Some (IntsK 4)
         else if key = ''spacing'' then Some (IntsK 2)
         else None)
      else if tag = ''common'' then
        (if key \<in> set [''lineHeight'', ''base'', ''scaleW'', ''scaleH'', ''pages'', ''packed'',
                        ''alphaChnl'', ''redChnl'', ''greenChnl'', ''blueChnl''] then Some IntK
         else None)
      else if tag = ''page'' then
        (if key = ''id'' then Some IntK else if key = ''file'' then Some StrK else None)
      else if tag = ''chars'' \<or> tag = ''kernings'' then
        (if key = ''count'' then Some IntK else None)
      else if tag = ''char'' then
        (if key \<in> set [''id'', ''x'', ''y'', ''width'', ''height'', ''xoffset'', ''yoffset'',
                        ''xadvance'', ''page'', ''chnl''] then Some IntK
         else None)
      else if tag = ''kerning'' then
        (if key \<in> set [''first'', ''second'', ''amount''] then Some IntK else None)
      else None)"

text \<open>
  Modelled from the spec: decoding one value in \<^verbatim>\<open>parseDescriptor\<close>. An integer is an unquoted numeric token; a
  string is a quoted string (an unquoted token is taken as it is); padding and spacing
  are lists of 4 and 2 integers separated by commas.
\<close>

fun decode_val :: "kind \<Rightarrow> val \<Rightarrow> dval option" where
  "decode_val IntK (Bare s) = map_option DInt (parse_int s)"
| "decode_val IntK (Quoted s) = None"
| "decode_val StrK (Bare s) = Some (DStr s)"
| "decode_val StrK (Quoted s) = Some (DStr s)"
| "decode_val (IntsK n) (Bare s) =
     (let xs = map parse_int (split_commas s)
      in if length xs = n \<and> None \<notin> set xs then Some (DInts (map the xs)) else None)"
| "decode_val (IntsK n) (Quoted s) = None"

text \<open>
  Modelled from the spec: decoding the attributes of a line in \<^verbatim>\<open>parseDescriptor\<close>,
  from left to right. Unknown
  keys are ignored; the first value that cannot be decoded ends the decoding with its
  key.
\<close>

fun decode_attrs :: "string \<Rightarrow> (string \<times> val) list \<Rightarrow> string + (string \<times> dval) list" where
  "decode_attrs tag [] = Inr []"
| "decode_attrs tag ((k, v) # r) =
     (case attr_kind tag k of
        None \<Rightarrow> decode_attrs tag r
      | Some kd \<Rightarrow>
          (case decode_val kd v of
             None \<Rightarrow> Inl k
           | Some dv \<Rightarrow>
               (case decode_attrs tag r of
                  Inl e \<Rightarrow> Inl e
                | Inr ds \<Rightarrow> Inr ((k, dv) # ds))))"

text \<open>
  Modelled from the spec: splitting a line into words in \<^verbatim>\<open>parseDescriptor\<close>. A line is a tag keyword followed
  by attributes \<open>key=value\<close> separated by whitespace; a value that starts with a double
  quote runs to the next double quote and may contain whitespace. \<open>Inl key\<close> reports a
  quoted string that is not terminated. A word without \<open>=\<close> carries no attribute.
\<close>

datatype lex_state = Skip | InKey string | InBare string string | InQuoted string string

fun lex_attrs :: "lex_state \<Rightarrow> string \<Rightarrow> string + (string \<times> val) list" where
  "lex_attrs Skip [] = Inr []"
| "lex_attrs (InKey k) [] = Inr []"
| "lex_attrs (InBare k v) [] = Inr [(rev k, Bare (rev v))]"
| "lex_attrs (InQuoted k v) [] = Inl (rev k)"
| "lex_attrs Skip (c # cs) = (if is_space c then lex_attrs Skip cs else lex_attrs (InKey [c]) cs)"
| "lex_attrs (InKey k) (c # cs) =
     (if is_space c then lex_attrs Skip cs
      else if c = CHR ''='' then
        (case cs of
           [] \<Rightarrow> Inr [(rev k, Bare [])]
         | q # cs' \<Rightarrow> if q = CHR 0x22 then lex_attrs (InQuoted k []) cs'
                      else lex_attrs (InBare k []) cs)
      else lex_attrs (InKey (c # k)) cs)"
| "lex_attrs (InBare k v) (c # cs) =
     (if is_space c then
        (case lex_attrs Skip cs of Inl e \<Rightarrow> Inl e | Inr r \<Rightarrow> Inr ((rev k, Bare (rev v)) # r))
      else lex_attrs (InBare k (c # v)) cs)"
| "lex_attrs (InQuoted k v) (c # cs) =
     (if c = CHR 0x22 then
        (case lex_attrs Skip cs of Inl e \<Rightarrow> Inl e | Inr r \<Rightarrow> Inr ((rev k, Quoted (rev v)) # r))
      else lex_attrs (InQuoted k (c # v)) cs)"

text \<open>
  Modelled from the spec: the tag keyword that \<^verbatim>\<open>parseDescriptor\<close> finds at the start
  of a line, and the remainder of the line.
\<close>

definition split_tag :: "string \<Rightarrow> string \<times> string" where
  "split_tag l = (let l' = dropWhile is_space l in (takeWhile (\<lambda>c. \<not> is_space c) l', dropWhile (\<lambda>c. \<not> is_space c) l'))"

text \<open>
  Modelled from the spec: building the records from the decoded attributes of a line in
  \<^verbatim>\<open>parseDescriptor\<close>. An
  attribute that is absent leaves the zero value; when a key occurs twice on a line the
  last occurrence is taken.
\<close>

definition get_int :: "(string \<times> dval) list \<Rightarrow> string \<Rightarrow> go_int" where
  "get_int ds key = (case map_of (rev ds) key of Some (DInt n) \<Rightarrow> n | _ \<Rightarrow> 0)"

definition get_str :: "(string \<times> dval) list \<Rightarrow> string \<Rightarrow> string" where
  "get_str ds key = (case map_of (rev ds) key of Some (DStr s) \<Rightarrow> s | _ \<Rightarrow> [])"

definition get_ints :: "(string \<times> dval) list \<Rightarrow> string \<Rightarrow> nat \<Rightarrow> go_int list" where
  "get_ints ds key n = (case map_of (rev ds) key of Some (DInts xs) \<Rightarrow> xs | _ \<Rightarrow> replicate n 0)"

definition build_Info :: "(string \<times> dval) list \<Rightarrow> Info" where
  "build_Info ds =
     (let p = get_ints ds ''padding'' 4; sp = get_ints ds ''spacing'' 2
      in \<lparr>Face = get_str ds ''face'', Size = get_int ds ''size'',
          Bold = (get_int ds ''bold'' \<noteq> 0), Italic = (get_int ds ''italic'' \<noteq> 0),
          Charset = get_str ds ''charset'', Unicode = (get_int ds ''unicode'' \<noteq> 0),
          StretchH = get_int ds ''stretchH'', Smooth = (get_int ds ''smooth'' \<noteq> 0),
          AA = get_int ds ''aa'',
          Padding = \<lparr>Up = p ! 0, Right = p ! 1, Down = p ! 2, Left = p ! 3\<rparr>,
          Spacing = \<lparr>Horizontal = sp ! 0, Vertical = sp ! 1\<rparr>,
          Outline = get_int ds ''outline''\<rparr>)"

definition build_Common :: "(string \<times> dval) list \<Rightarrow> Common" where
  "build_Common ds =
     \<lparr>LineHeight = get_int ds ''lineHeight'', Base = get_int ds ''base'',
      ScaleW = get_int ds ''scaleW'', ScaleH = get_int ds ''scaleH'',
      Packed = (get_int ds ''packed'' \<noteq> 0),
      AlphaChannel = get_int ds ''alphaChnl'', RedChannel = get_int ds ''redChnl'',
      GreenChannel = get_int ds ''greenChnl'', BlueChannel = get_int ds ''blueChnl''\<rparr>"

definition build_Page :: "(string \<times> dval) list \<Rightarrow> Page" where
  "build_Page ds = \<lparr>Page.ID = get_int ds ''id'', File = get_str ds ''file''\<rparr>"

definition build_Char :: "(string \<times> dval) list \<Rightarrow> Char" where
  "build_Char ds =
     \<lparr>Char.ID = ucast (get_int ds ''id''), X = get_int ds ''x'', Y = get_int ds ''y'',
      Width = get_int ds ''width'', Height = get_int ds ''height'',
      XOffset = get_int ds ''xoffset'', YOffset = get_int ds ''yoffset'',
      XAdvance = get_int ds ''xadvance'', Page = get_int ds ''page'',
      Channel = get_int ds ''chnl''\<rparr>"

text \<open>
  Modelled from the spec: what a decoded line contributes in \<^verbatim>\<open>parseDescriptor\<close>. \<open>info\<close> and \<open>common\<close> fill
  the two singletons; \<open>page\<close>, \<open>char\<close> and \<open>kerning\<close> insert or overwrite the entry
  under their key; \<open>chars\<close> and \<open>kernings\<close> only declare a count.
\<close>

definition store :: "string \<Rightarrow> (string \<times> dval) list \<Rightarrow> Descriptor \<Rightarrow> Descriptor" where
  "store tag ds d =
     (if tag = ''info'' then d\<lparr>Info := build_Info ds\<rparr>
      else if tag = ''common'' then d\<lparr>Common := build_Common ds\<rparr>
      else if tag = ''page'' then
        (let p = build_Page ds in d\<lparr>Pages := (Pages d)(Page.ID p \<mapsto> p)\<rparr>)
      else if tag = ''char'' then
        (let c = build_Char ds in d\<lparr>Chars := (Chars d)(Char.ID c \<mapsto> c)\<rparr>)
      else if tag = ''kerning'' then
        d\<lparr>Kerning := (Kerning d)(\<lparr>First = ucast (get_int ds ''first''),
                                     Second = ucast (get_int ds ''second'')\<rparr>
                                   \<mapsto> \<lparr>Amount = get_int ds ''amount''\<rparr>)\<rparr>
      else d)"

text \<open>
  Modelled from the spec: the descriptor with which \<^verbatim>\<open>parseDescriptor\<close> starts: zero
  values and no entries, which is also what it returns when \<open>info\<close> or \<open>common\<close>
  never occur.
\<close>

definition empty_Descriptor :: Descriptor where
  "empty_Descriptor = \<lparr>Info = build_Info [], Common = build_Common [],
     Pages = Map.empty, Chars = Map.empty, Kerning = Map.empty\<rparr>"

text \<open>
  Modelled from the spec: the parser \<^verbatim>\<open>parseDescriptor\<close>, which is not among the
  sources. It reads the lines in one pass. A line with an unknown tag (an empty line
  too) contributes nothing; on a line with a known tag the first value that cannot be
  decoded ends the parse with a malformed-value error, and no descriptor is returned. A
  read failure after the last line ends it with \<open>SourceUnavailable\<close>. The result is the
  Go pair of a descriptor pointer and an error.
\<close>

definition parse_line :: "string \<Rightarrow> nat \<Rightarrow> string \<Rightarrow> Descriptor \<Rightarrow> error + Descriptor" where
  "parse_line name n l d =
     (let (tag, rest) = split_tag l
      in if tag \<notin> set known_tags then Inr d
         else (case lex_attrs Skip rest of
                 Inl k \<Rightarrow> Inl (MalformedValue name n tag k)
               | Inr attrs \<Rightarrow>
                   (case decode_attrs tag attrs of
                      Inl k \<Rightarrow> Inl (MalformedValue name n tag k)
                    | Inr ds \<Rightarrow> Inr (store tag ds d))))"

fun parse_lines :: "string \<Rightarrow> nat \<Rightarrow> string list \<Rightarrow> Descriptor \<Rightarrow> error + Descriptor" where
  "parse_lines name n [] d = Inr d"
| "parse_lines name n (l # ls) d =
     (case parse_line name n l d of
        Inl e \<Rightarrow> Inl e
      | Inr d' \<Rightarrow> parse_lines name (Suc n) ls d')"

definition parseDescriptor :: "string \<Rightarrow> source \<Rightarrow> Descriptor option \<times> error option" where
  "parseDescriptor name r =
     (case parse_lines name 1 (lines r) empty_Descriptor of
        Inl e \<Rightarrow> (None, Some e)
      | Inr d \<Rightarrow> if read_fails r then (None, Some SourceUnavailable) else (Some d, None))"

text \<open>
  The two entry points of the source. \<^verbatim>\<open>LoadDescriptor\<close> opens the file (\<open>os_Open\<close>
  gives the error or the file's contents), parses it under the base name of the path, and
  closes it in a deferred call that overwrites the returned error only when the parse
  returned none (\<open>f_Close\<close> is the error of \<^verbatim>\<open>Close\<close>, if any).
\<close>

definition closeChecked :: "error option \<Rightarrow> error option \<Rightarrow> error option" where
  "closeChecked cErr err = (if cErr \<noteq> None \<and> err = None then cErr else err)"

definition filepath_Base :: "string \<Rightarrow> string" where
  "filepath_Base path =
     (if path = [] then ''.''
      else (let p = rev (dropWhile (\<lambda>c. c = CHR ''/'') (rev path))
            in if p = [] then ''/'' else rev (takeWhile (\<lambda>c. c \<noteq> CHR ''/'') (rev p))))"

definition LoadDescriptor ::
  "(string \<Rightarrow> error + source) \<Rightarrow> error option \<Rightarrow> string \<Rightarrow> Descriptor option \<times> error option" where
  "LoadDescriptor os_Open f_Close path =
     (case os_Open path of
        Inl err \<Rightarrow> (None, Some err)
      | Inr f \<Rightarrow>
          (let (d, err) = parseDescriptor (filepath_Base path) f
           in (d, closeChecked f_Close err)))"

definition ReadDescriptor :: "source \<Rightarrow> Descriptor option \<times> error option" where
  "ReadDescriptor r = parseDescriptor ''bmfont'' r"

text \<open>
  The inputs of the error property. \<open>malformed_at l tag key\<close>: the line \<open>l\<close> has the
  known tag \<open>tag\<close> and the value of its attribute \<open>key\<close> cannot be decoded (or is a
  quoted string that is not terminated). \<open>bad_int_line l\<close>: the line has a known tag and
  an integer-valued attribute of that tag whose value is not an integer token.
\<close>

definition undecodable :: "string \<Rightarrow> string \<times> val \<Rightarrow> bool" where
  "undecodable tag kv =
     (case attr_kind tag (fst kv) of None \<Rightarrow> False | Some kd \<Rightarrow> decode_val kd (snd kv) = None)"

definition malformed_at :: "string \<Rightarrow> string \<Rightarrow> string \<Rightarrow> bool" where
  "malformed_at l tag key \<longleftrightarrow>
     fst (split_tag l) = tag \<and> tag \<in> set known_tags \<and>
     (case lex_attrs Skip (snd (split_tag l)) of
        Inl k \<Rightarrow> k = key
      | Inr attrs \<Rightarrow> list_ex (\<lambda>kv. fst kv = key \<and> undecodable tag kv) attrs)"

definition bad_int_line :: "string \<Rightarrow> bool" where
  "bad_int_line l \<longleftrightarrow>
     fst (split_tag l) \<in> set known_tags \<and>
     (case lex_attrs Skip (snd (split_tag l)) of
        Inl k \<Rightarrow> False
      | Inr attrs \<Rightarrow>
          list_ex (\<lambda>kv. attr_kind (fst (split_tag l)) (fst kv) = Some IntK \<and>
                        decode_val IntK (snd kv) = None) attrs)"

definition bad_x_source :: source where
  "bad_x_source = \<lparr>lines = [''chars count=1'', [], ''char id=65 x=1O y=20 width=30''],
     read_fails = False\<rparr>"

section \<open>Padding, spacing and page dimensions under rotation\<close>

lemma Rotate_Info:
  "Info (Rotate d ks) = (Info d)\<lparr>
     Padding := \<lparr>Up = Left (Padding (Info d)), Right = Up (Padding (Info d)),
                 Down = Right (Padding (Info d)), Left = Down (Padding (Info d))\<rparr>,
     Spacing := \<lparr>Horizontal = Vertical (Spacing (Info d)),
                 Vertical = Horizontal (Spacing (Info d))\<rparr>\<rparr>"
  by (simp add: Rotate_def Let_def)

lemma Rotate_ScaleW: "ScaleW (Common (Rotate d ks)) = ScaleH (Common d)"
  by (simp add: Rotate_def Let_def)

lemma Rotate_ScaleH: "ScaleH (Common (Rotate d ks)) = ScaleW (Common d)"
  by (simp add: Rotate_def Let_def)

lemma Rotate_Pages: "Pages (Rotate d ks) = Pages d"
  by (simp add: Rotate_def Let_def)

lemma Rotate_Kerning: "Kerning (Rotate d ks) = Kerning d"
  by (simp add: Rotate_def Let_def)

lemma Rotate_Chars_fold:
  "Chars (Rotate d ks) = fst (fold (Rotate_step (ScaleH (Common d))) ks (Chars d, 0))"
  by (simp add: Rotate_def Let_def)

lemma Rotate_LineHeight_fold:
  "LineHeight (Common (Rotate d ks)) = snd (fold (Rotate_step (ScaleH (Common d))) ks (Chars d, 0))"
  by (simp add: Rotate_def Let_def)

lemma Rotate_Base: "Base (Common (Rotate d ks)) = LineHeight (Common (Rotate d ks))"
  by (simp add: Rotate_def Let_def)

text \<open>
  C3. Rotation permutes the padding clockwise: the new up is the old left, the new right
  the old up, the new down the old right and the new left the old down, whatever the
  descriptor and whatever order the glyph loop runs in.
\<close>

theorem Rotate_padding_clockwise:
  "Up (Padding (Info (Rotate d ks))) = Left (Padding (Info d)) \<and>
   Right (Padding (Info (Rotate d ks))) = Up (Padding (Info d)) \<and>
   Down (Padding (Info (Rotate d ks))) = Right (Padding (Info d)) \<and>
   Left (Padding (Info (Rotate d ks))) = Down (Padding (Info d))"
  by (simp add: Rotate_Info)

text \<open>The padding 1,2,3,4 (up, right, down, left) of the sample font becomes 4,1,2,3.\<close>

theorem Rotate_padding_clockwise_witness:
  "Padding (Info sample_descriptor) = \<lparr>Up = 1, Right = 2, Down = 3, Left = 4\<rparr> \<and>
   Padding (Info (Rotate sample_descriptor [65])) = \<lparr>Up = 4, Right = 1, Down = 2, Left = 3\<rparr>"
  using Rotate_padding_clockwise [of sample_descriptor "[65]"]
  by (simp add: sample_descriptor_def sample_info_def Padding.equality)

text \<open>
  C4. Rotation swaps the two components of the spacing and swaps the page width with
  the page height.
\<close>

theorem Rotate_spacing_scale_swap:
  "Horizontal (Spacing (Info (Rotate d ks))) = Vertical (Spacing (Info d)) \<and>
   Vertical (Spacing (Info (Rotate d ks))) = Horizontal (Spacing (Info d)) \<and>
   ScaleW (Common (Rotate d ks)) = ScaleH (Common d) \<and>
   ScaleH (Common (Rotate d ks)) = ScaleW (Common d)"
  by (simp add: Rotate_Info Rotate_ScaleW Rotate_ScaleH)

text \<open>The 256 by 128 page becomes 128 by 256, and the spacing 5,7 becomes 7,5.\<close>

theorem Rotate_spacing_scale_swap_witness:
  "ScaleW (Common sample_descriptor) = 256 \<and> ScaleH (Common sample_descriptor) = 128 \<and>
   ScaleW (Common (Rotate sample_descriptor [65])) = 128 \<and>
   ScaleH (Common (Rotate sample_descriptor [65])) = 256 \<and>
   Spacing (Info (Rotate sample_descriptor [65])) = \<lparr>Horizontal = 7, Vertical = 5\<rparr>"
  using Rotate_spacing_scale_swap [of sample_descriptor "[65]"]
  by (simp add: sample_descriptor_def sample_info_def sample_common_def Spacing.equality)

section \<open>The page dimension accessor\<close>

text \<open>
  C10. \<open>Common_Scale\<close> returns the point whose two coordinates are both the page
  height; the page width is not read. It is the point (width, height) exactly when the
  page is square.
\<close>

theorem Common_Scale_height_twice:
  "Common_Scale c = \<lparr>PX = ScaleH c, PY = ScaleH c\<rparr> \<and>
   Common_Scale (c\<lparr>ScaleW := w\<rparr>) = Common_Scale c \<and>
   (Common_Scale c = \<lparr>PX = ScaleW c, PY = ScaleH c\<rparr> \<longleftrightarrow> ScaleW c = ScaleH c)"
  by (auto simp: Common_Scale_def Pt_def)

text \<open>On the 256 by 128 page of the sample font the accessor returns (128, 128).\<close>

theorem Common_Scale_height_twice_witness:
  "Common_Scale sample_common = \<lparr>PX = 128, PY = 128\<rparr> \<and>
   Common_Scale sample_common \<noteq> \<lparr>PX = ScaleW sample_common, PY = ScaleH sample_common\<rparr>"
  using Common_Scale_height_twice [of sample_common]
  by (simp add: sample_common_def)

section \<open>The glyph loop\<close>

lemma rotate_char_ID [simp]: "Char.ID (rotate_char sw c) = Char.ID c"
  by (simp add: rotate_char_def Let_def)

lemma rotate_char_Height [simp]: "Height (rotate_char sw c) = Width c"
  by (simp add: rotate_char_def Let_def)

lemma rotate_char_eq:
  "rotate_char sw c = c\<lparr>X := sw - Y c - Height c, Y := X c, Width := Height c, Height := Width c,
      XOffset := YOffset c, YOffset := XOffset c, XAdvance := Height c + YOffset c\<rparr>"
  by (simp add: rotate_char_def Let_def)

lemma Rotate_step_keyed:
  assumes "keyed_by_id m"
  shows "Rotate_step sw k (m, lh) =
    (case m k of None \<Rightarrow> (m, lh)
     | Some c \<Rightarrow> (m(k \<mapsto> rotate_char sw c), if lh <s Width c then Width c else lh))"
  using assms by (auto simp: Rotate_step_def keyed_by_id_def Let_def split: option.splits)

lemma keyed_by_id_upd:
  "keyed_by_id m \<Longrightarrow> Char.ID c = k \<Longrightarrow> keyed_by_id (m(k \<mapsto> c))"
  by (simp add: keyed_by_id_def)

lemma fold_Rotate_step_Cons:
  assumes "keyed_by_id m" "m a = Some c"
  shows "fold (Rotate_step sw) (a # ks) (m, lh) =
     fold (Rotate_step sw) ks (m(a \<mapsto> rotate_char sw c), if lh <s Width c then Width c else lh)"
  using assms by (simp add: Rotate_step_keyed)

lemma fold_Rotate_step_chars:
  assumes "keyed_by_id m" "distinct ks"
  shows "fst (fold (Rotate_step sw) ks (m, lh)) k =
     (if k \<in> set ks then map_option (rotate_char sw) (m k) else m k)"
  using assms
proof (induction ks arbitrary: m lh)
  case Nil
  then show ?case by simp
next
  case (Cons a ks)
  from Cons.prems(2) have d: "distinct ks" and na: "a \<notin> set ks" by simp_all
  show ?case
  proof (cases "m a")
    case None
    have "fold (Rotate_step sw) (a # ks) (m, lh) = fold (Rotate_step sw) ks (m, lh)"
      using None Cons.prems(1) by (simp add: Rotate_step_keyed)
    then show ?thesis
      using Cons.IH[OF Cons.prems(1) d, of lh] None by auto
  next
    case (Some c)
    from Cons.prems Some have id: "Char.ID c = a" by (simp add: keyed_by_id_def)
    let ?m = "m(a \<mapsto> rotate_char sw c)"
    let ?lh = "if lh <s Width c then Width c else lh"
    have k': "keyed_by_id ?m"
      using Cons.prems(1) id by (simp add: keyed_by_id_upd)
    have "fst (fold (Rotate_step sw) (a # ks) (m, lh)) k = fst (fold (Rotate_step sw) ks (?m, ?lh)) k"
      by (simp only: fold_Rotate_step_Cons[OF Cons.prems(1) Some])
    also have "\<dots> = (if k \<in> set ks then map_option (rotate_char sw) (?m k) else ?m k)"
      by (rule Cons.IH[OF k' d])
    also have "\<dots> = (if k \<in> set (a # ks) then map_option (rotate_char sw) (m k) else m k)"
      using na Some by auto
    finally show ?thesis .
  qed
qed

lemma fold_Rotate_step_lh:
  assumes "keyed_by_id m" "distinct ks" "set ks \<subseteq> dom m"
  shows "sint (snd (fold (Rotate_step sw) ks (m, lh))) =
     Max (insert (sint lh) ((\<lambda>k. sint (Width (the (m k)))) ` set ks))"
  using assms
proof (induction ks arbitrary: m lh)
  case Nil
  then show ?case by simp
next
  case (Cons a ks)
  from Cons.prems(3) obtain c where Some: "m a = Some c" by auto
  from Cons.prems Some have id: "Char.ID c = a" by (simp add: keyed_by_id_def)
  let ?m = "m(a \<mapsto> rotate_char sw c)"
  let ?lh = "if lh <s Width c then Width c else lh"
  let ?W = "(\<lambda>k. sint (Width (the (m k)))) ` set ks"
  have k': "keyed_by_id ?m"
    using Cons.prems(1) id by (simp add: keyed_by_id_upd)
  from Cons.prems(2) have d: "distinct ks" and na: "a \<notin> set ks" by simp_all
  have sub: "set ks \<subseteq> dom ?m" using Cons.prems(3) by auto
  have img: "(\<lambda>k. sint (Width (the (?m k)))) ` set ks = ?W"
    using na by (intro image_cong) auto
  have lh: "sint ?lh = max (sint lh) (sint (Width c))"
    by (simp add: word_sless_alt max_def)
  have fin: "finite ?W" by simp
  have "sint (snd (fold (Rotate_step sw) (a # ks) (m, lh))) =
        sint (snd (fold (Rotate_step sw) ks (?m, ?lh)))"
    by (simp only: fold_Rotate_step_Cons[OF Cons.prems(1) Some])
  also have "\<dots> = Max (insert (sint ?lh) ((\<lambda>k. sint (Width (the (?m k)))) ` set ks))"
    by (rule Cons.IH[OF k' d sub])
  also have "\<dots> = Max (insert (sint ?lh) ?W)"
    by (simp only: img)
  also have "\<dots> = Max (insert (sint lh) (insert (sint (Width c)) ?W))"
  proof (cases "?W = {}")
    case True
    then show ?thesis by (simp only: lh) (simp add: max.commute)
  next
    case False
    then show ?thesis using fin
      by (simp only: lh) (simp add: max.assoc)
  qed
  also have "insert (sint (Width c)) ?W = (\<lambda>k. sint (Width (the (m k)))) ` set (a # ks)"
    using Some by simp
  finally show ?case .
qed

lemma Rotate_Chars:
  assumes "keyed_by_id (Chars d)" "enumerates ks (Chars d)"
  shows "Chars (Rotate d ks) k = map_option (rotate_char (ScaleH (Common d))) (Chars d k)"
proof -
  from assms(2) have d: "distinct ks" and s: "set ks = dom (Chars d)"
    by (simp_all add: enumerates_def)
  show ?thesis
    unfolding Rotate_Chars_fold fold_Rotate_step_chars[OF assms(1) d]
    using s by (cases "Chars d k") auto
qed

lemma Rotate_dom:
  assumes "keyed_by_id (Chars d)" "enumerates ks (Chars d)"
  shows "dom (Chars (Rotate d ks)) = dom (Chars d)"
  by (auto simp: Rotate_Chars[OF assms] dom_def)

lemma Rotate_keyed_by_id:
  assumes "keyed_by_id (Chars d)" "enumerates ks (Chars d)"
  shows "keyed_by_id (Chars (Rotate d ks))"
  using assms(1) by (auto simp: keyed_by_id_def Rotate_Chars[OF assms])

lemma Rotate_ran:
  assumes "keyed_by_id (Chars d)" "enumerates ks (Chars d)"
  shows "ran (Chars (Rotate d ks)) = rotate_char (ScaleH (Common d)) ` ran (Chars d)"
  by (auto simp: ran_def Rotate_Chars[OF assms] image_iff) 

lemma Rotate_LineHeight:
  assumes "keyed_by_id (Chars d)" "enumerates ks (Chars d)"
  shows "sint (LineHeight (Common (Rotate d ks))) =
     Max (insert 0 ((\<lambda>c. sint (Width c)) ` ran (Chars d)))"
proof -
  from assms(2) have d: "distinct ks" and s: "set ks = dom (Chars d)"
    by (simp_all add: enumerates_def)
  have "(\<lambda>k. sint (Width (the (Chars d k)))) ` set ks = (\<lambda>c. sint (Width c)) ` ran (Chars d)"
    unfolding s by (force simp: ran_def dom_def image_iff)
  then show ?thesis
    unfolding Rotate_LineHeight_fold
    using fold_Rotate_step_lh[OF assms(1) d, of sw 0] s
    by (simp add: fold_Rotate_step_lh[OF assms(1) d])
qed

text \<open>
  C1. For a descriptor whose glyphs are stored under their own ids, and for any order in
  which the loop enumerates them, every glyph is replaced by its rotated copy: the new
  x is the rotated descriptor's page width (the old page height) minus the old y minus
  the old height, the new y is the old x, width and height are exchanged, the two
  offsets are exchanged, and the advance is the new width plus the new x offset, whatever
  the old advance was. Subtraction and addition wrap around as Go's do.
\<close>

theorem Rotate_glyph_transform:
  assumes "keyed_by_id (Chars d)" and "enumerates ks (Chars d)" and "Chars d k = Some c"
  shows "\<exists>c'. Chars (Rotate d ks) k = Some c' \<and>
     X c' = ScaleW (Common (Rotate d ks)) - Y c - Height c \<and>
     ScaleW (Common (Rotate d ks)) = ScaleH (Common d) \<and>
     Y c' = X c \<and>
     Width c' = Height c \<and>
     Height c' = Width c \<and>
     XOffset c' = YOffset c \<and>
     YOffset c' = XOffset c \<and>
     XAdvance c' = Width c' + XOffset c'"
  using assms(3)
  by (simp add: Rotate_Chars[OF assms(1,2)] Rotate_ScaleW rotate_char_eq)

text \<open>
  The glyph x=10, y=20, width=30, height=5, xoffset=1, yoffset=2 on the 256 by 128 page
  becomes x=103, y=10, width=5, height=30, xoffset=2, yoffset=1, xadvance=7.
\<close>

theorem Rotate_glyph_transform_witness:
  "keyed_by_id (Chars sample_descriptor) \<and> enumerates [65] (Chars sample_descriptor) \<and>
   Chars sample_descriptor 65 = Some \<lparr>ID = 65, X = 10, Y = 20, Width = 30, Height = 5,
     XOffset = 1, YOffset = 2, XAdvance = 31, Page = 0, Channel = 15\<rparr> \<and>
   ScaleW (Common sample_descriptor) = 256 \<and> ScaleH (Common sample_descriptor) = 128 \<and>
   (\<exists>c'. Chars (Rotate sample_descriptor [65]) 65 = Some c' \<and>
      X c' = 103 \<and> Y c' = 10 \<and> Width c' = 5 \<and> Height c' = 30 \<and>
      XOffset c' = 2 \<and> YOffset c' = 1 \<and> XAdvance c' = 7)"
proof -
  have k: "keyed_by_id (Chars sample_descriptor)"
    by (simp add: keyed_by_id_def sample_descriptor_def sample_char_def)
  have e: "enumerates [65] (Chars sample_descriptor)"
    by (simp add: enumerates_def sample_descriptor_def)
  have c: "Chars sample_descriptor 65 = Some sample_char"
    by (simp add: sample_descriptor_def)
  have sc: "ScaleW (Common sample_descriptor) = 256 \<and> ScaleH (Common sample_descriptor) = 128"
    by (simp add: sample_descriptor_def sample_common_def)
  from Rotate_glyph_transform [OF k e c] obtain c' where
    "Chars (Rotate sample_descriptor [65]) 65 = Some c'"
    "X c' = ScaleW (Common (Rotate sample_descriptor [65])) - Y sample_char - Height sample_char"
    "ScaleW (Common (Rotate sample_descriptor [65])) = ScaleH (Common sample_descriptor)"
    "Y c' = X sample_char" "Width c' = Height sample_char" "Height c' = Width sample_char"
    "XOffset c' = YOffset sample_char" "YOffset c' = XOffset sample_char"
    "XAdvance c' = Width c' + XOffset c'"
    by blast
  then have "Chars (Rotate sample_descriptor [65]) 65 = Some c' \<and>
      X c' = 103 \<and> Y c' = 10 \<and> Width c' = 5 \<and> Height c' = 30 \<and>
      XOffset c' = 2 \<and> YOffset c' = 1 \<and> XAdvance c' = 7"
    using sc by (simp add: sample_char_def)
  then have "\<exists>c'. Chars (Rotate sample_descriptor [65]) 65 = Some c' \<and>
      X c' = 103 \<and> Y c' = 10 \<and> Width c' = 5 \<and> Height c' = 30 \<and>
      XOffset c' = 2 \<and> YOffset c' = 1 \<and> XAdvance c' = 7" ..
  with k e c sc show ?thesis by (simp add: sample_char_def)
qed

lemma Rotate_heights:
  assumes "keyed_by_id (Chars d)" "enumerates ks (Chars d)"
  shows "(\<lambda>c. sint (Height c)) ` ran (Chars (Rotate d ks)) = (\<lambda>c. sint (Width c)) ` ran (Chars d)"
  by (simp add: Rotate_ran[OF assms] image_image)

lemma finite_ran_enumerates:
  assumes "enumerates ks m"
  shows "finite (ran m)"
proof -
  from assms have "finite (dom m)" by (metis enumerates_def List.finite_set)
  then show ?thesis by (rule finite_ran)
qed

text \<open>
  C2, as the code has it. After rotation \<open>Base\<close> equals \<open>LineHeight\<close>, and
  \<open>LineHeight\<close> is the largest of 0 and the rotated glyphs' heights, read as signed
  numbers; the rotated heights are the widths before rotation. Hence it is the largest
  rotated height as soon as one glyph has a width that is not negative, and 0 when the
  font has no glyph.
\<close>

theorem Rotate_line_metrics:
  assumes "keyed_by_id (Chars d)" and "enumerates ks (Chars d)"
  shows "Base (Common (Rotate d ks)) = LineHeight (Common (Rotate d ks)) \<and>
     sint (LineHeight (Common (Rotate d ks))) =
       Max (insert 0 ((\<lambda>c. sint (Height c)) ` ran (Chars (Rotate d ks)))) \<and>
     (\<lambda>c. sint (Height c)) ` ran (Chars (Rotate d ks)) = (\<lambda>c. sint (Width c)) ` ran (Chars d) \<and>
     ((\<exists>c \<in> ran (Chars d). 0 \<le> sint (Width c)) \<longrightarrow>
        sint (LineHeight (Common (Rotate d ks))) =
          Max ((\<lambda>c. sint (Height c)) ` ran (Chars (Rotate d ks)))) \<and>
     (Chars d = Map.empty \<longrightarrow> LineHeight (Common (Rotate d ks)) = 0)"
proof -
  let ?H = "(\<lambda>c. sint (Height c)) ` ran (Chars (Rotate d ks))"
  have h: "?H = (\<lambda>c. sint (Width c)) ` ran (Chars d)"
    by (rule Rotate_heights[OF assms])
  have lh: "sint (LineHeight (Common (Rotate d ks))) = Max (insert 0 ?H)"
    by (simp only: Rotate_LineHeight[OF assms] h)
  have fin: "finite ?H"
    unfolding h using finite_ran_enumerates[OF assms(2)] by simp
  have nonneg: "Max (insert 0 ?H) = Max ?H" if "\<exists>c \<in> ran (Chars d). 0 \<le> sint (Width c)"
  proof -
    from that obtain c where c: "c \<in> ran (Chars d)" "0 \<le> sint (Width c)" by blast
    then have in_H: "sint (Width c) \<in> ?H" unfolding h by blast
    then have ne: "?H \<noteq> {}" by blast
    have "sint (Width c) \<le> Max ?H" using fin in_H by (rule Max_ge)
    with c(2) have "0 \<le> Max ?H" by linarith
    then show ?thesis using fin ne by (simp add: max_def)
  qed
  have empty: "LineHeight (Common (Rotate d ks)) = 0" if "Chars d = Map.empty"
  proof -
    from that assms(2) have "ks = []" by (simp add: enumerates_def)
    then show ?thesis by (simp add: Rotate_LineHeight_fold)
  qed
  show ?thesis
    using Rotate_Base lh h nonneg empty by simp
qed

text \<open>
  Three glyphs whose rotated heights are 30, 12 and 45 give the line height and the base
  45, here with the loop visiting them in the order 66, 67, 65.
\<close>

theorem Rotate_line_metrics_witness:
  "keyed_by_id (Chars three_glyphs) \<and> enumerates [66, 67, 65] (Chars three_glyphs) \<and>
   (\<lambda>c. sint (Height c)) ` ran (Chars (Rotate three_glyphs [66, 67, 65])) = {30, 12, 45} \<and>
   LineHeight (Common (Rotate three_glyphs [66, 67, 65])) = 45 \<and>
   Base (Common (Rotate three_glyphs [66, 67, 65])) = 45"
proof -
  have k: "keyed_by_id (Chars three_glyphs)"
    by (simp add: keyed_by_id_def three_glyphs_def sample_char_def)
  have e: "enumerates [66, 67, 65] (Chars three_glyphs)"
    by (auto simp: enumerates_def three_glyphs_def)
  have r: "ran (Chars three_glyphs) = {sample_char\<lparr>Width := 30\<rparr>,
      sample_char\<lparr>ID := 66, Width := 12\<rparr>, sample_char\<lparr>ID := 67, Width := 45\<rparr>}"
    by (simp add: three_glyphs_def insert_commute)
  have w: "(\<lambda>c. sint (Width c)) ` ran (Chars three_glyphs) = {30, 12, 45}"
    unfolding r by simp
  from Rotate_line_metrics [OF k e] w
  have "Base (Common (Rotate three_glyphs [66, 67, 65])) =
          LineHeight (Common (Rotate three_glyphs [66, 67, 65]))"
    and "sint (LineHeight (Common (Rotate three_glyphs [66, 67, 65]))) = Max (insert 0 {30, 12, 45})"
    and h: "(\<lambda>c. sint (Height c)) ` ran (Chars (Rotate three_glyphs [66, 67, 65])) = {30, 12, 45}"
    by simp_all
  then have "signed (LineHeight (Common (Rotate three_glyphs [66, 67, 65]))) = (signed (45 :: go_int) :: int)"
    and "Base (Common (Rotate three_glyphs [66, 67, 65])) =
          LineHeight (Common (Rotate three_glyphs [66, 67, 65]))"
    by simp_all
  then have "LineHeight (Common (Rotate three_glyphs [66, 67, 65])) = 45"
    and "Base (Common (Rotate three_glyphs [66, 67, 65])) = 45"
    by (simp_all only: word_eq_iff_signed [where ?'a = int, symmetric])
  with k e h show ?thesis by simp
qed

text \<open>
  That the line height is the largest rotated height fails on a font whose only glyph
  has the width -1: its rotated height is -1, and the line height and the base are 0.
\<close>

theorem Rotate_line_metrics_counterexample:
  "keyed_by_id (Chars negative_width) \<and> enumerates [65] (Chars negative_width) \<and>
   dom (Chars (Rotate negative_width [65])) = {65} \<and>
   sint (Height (the (Chars (Rotate negative_width [65]) 65))) = - 1 \<and>
   sint (LineHeight (Common (Rotate negative_width [65]))) = 0 \<and>
   sint (Base (Common (Rotate negative_width [65]))) = 0"
proof -
  have k: "keyed_by_id (Chars negative_width)"
    by (simp add: keyed_by_id_def negative_width_def sample_char_def)
  have e: "enumerates [65] (Chars negative_width)"
    by (simp add: enumerates_def negative_width_def)
  have c: "Chars (Rotate negative_width [65]) = [65 \<mapsto> rotate_char 128 (sample_char\<lparr>Width := - 1\<rparr>)]"
    by (simp add: Rotate_Chars_fold Rotate_step_def negative_width_def sample_descriptor_def
        sample_common_def sample_char_def Let_def)
  have l: "LineHeight (Common (Rotate negative_width [65])) = 0"
    by (simp add: Rotate_LineHeight_fold Rotate_step_def negative_width_def sample_descriptor_def
        sample_common_def sample_char_def Let_def)
  show ?thesis using k e by (simp add: c l Rotate_Base)
qed

section \<open>What rotation leaves alone\<close>

lemma rotate_char_frame:
  "(rotate_char sw c)\<lparr>X := X c, Y := Y c, Width := Width c, Height := Height c,
      XOffset := XOffset c, YOffset := YOffset c, XAdvance := XAdvance c\<rparr> = c"
  by (simp add: rotate_char_eq)

lemma Rotate_Common_frame:
  "(Common (Rotate d ks))\<lparr>LineHeight := LineHeight (Common d), Base := Base (Common d),
      ScaleW := ScaleW (Common d), ScaleH := ScaleH (Common d)\<rparr> = Common d"
  by (simp add: Rotate_def Let_def)

text \<open>
  C5. Rotation leaves the kerning map and the page map as they are. Of the info record
  only padding and spacing change, of the common record only line height, base, page
  width and page height: putting the old values of these fields back gives the old
  record. For a descriptor keyed by glyph id and any enumeration order, the glyph map
  keeps its keys, and every glyph keeps its id, page and channel: putting the old
  geometric fields (x, y, width, height, the two offsets and the advance) back into the
  rotated glyph gives the old glyph.
\<close>

theorem Rotate_frame:
  assumes "keyed_by_id (Chars d)" and "enumerates ks (Chars d)"
  shows "Kerning (Rotate d ks) = Kerning d \<and>
     Pages (Rotate d ks) = Pages d \<and>
     (Info (Rotate d ks))\<lparr>Padding := Padding (Info d), Spacing := Spacing (Info d)\<rparr> = Info d \<and>
     (Common (Rotate d ks))\<lparr>LineHeight := LineHeight (Common d), Base := Base (Common d),
        ScaleW := ScaleW (Common d), ScaleH := ScaleH (Common d)\<rparr> = Common d \<and>
     dom (Chars (Rotate d ks)) = dom (Chars d) \<and>
     (\<forall>k c. Chars d k = Some c \<longrightarrow>
        (\<exists>c'. Chars (Rotate d ks) k = Some c' \<and>
           Char.ID c' = Char.ID c \<and> Page c' = Page c \<and> Channel c' = Channel c \<and>
           c'\<lparr>X := X c, Y := Y c, Width := Width c, Height := Height c,
              XOffset := XOffset c, YOffset := YOffset c, XAdvance := XAdvance c\<rparr> = c))"
proof -
  have glyphs: "\<exists>c'. Chars (Rotate d ks) k = Some c' \<and>
           Char.ID c' = Char.ID c \<and> Page c' = Page c \<and> Channel c' = Channel c \<and>
           c'\<lparr>X := X c, Y := Y c, Width := Width c, Height := Height c,
              XOffset := XOffset c, YOffset := YOffset c, XAdvance := XAdvance c\<rparr> = c"
    if "Chars d k = Some c" for k c
    using that by (simp add: Rotate_Chars[OF assms] rotate_char_frame) (simp add: rotate_char_eq)
  have info: "(Info (Rotate d ks))\<lparr>Padding := Padding (Info d), Spacing := Spacing (Info d)\<rparr> = Info d"
    by (simp add: Rotate_Info)
  show ?thesis
    using glyphs info Rotate_Common_frame Rotate_dom[OF assms]
    by (simp add: Rotate_Kerning Rotate_Pages)
qed

text \<open>
  On the sample font the kerning pair (65, 66) keeps its amount -1, the page 0 keeps its
  file, the face, size and outline stay, and the glyph 65 stays on page 0 with channel 15.
\<close>

theorem Rotate_frame_witness:
  "keyed_by_id (Chars sample_descriptor) \<and> enumerates [65] (Chars sample_descriptor) \<and>
   Kerning (Rotate sample_descriptor [65]) \<lparr>First = 65, Second = 66\<rparr> = Some \<lparr>Amount = - 1\<rparr> \<and>
   Pages (Rotate sample_descriptor [65]) 0 = Some \<lparr>Page.ID = 0, File = ''arial_0.png''\<rparr> \<and>
   Face (Info (Rotate sample_descriptor [65])) = ''Arial'' \<and>
   Size (Info (Rotate sample_descriptor [65])) = 32 \<and>
   Outline (Info (Rotate sample_descriptor [65])) = 0 \<and>
   Packed (Common (Rotate sample_descriptor [65])) = False \<and>
   AlphaChannel (Common (Rotate sample_descriptor [65])) = 1 \<and>
   dom (Chars (Rotate sample_descriptor [65])) = {65} \<and>
   (\<exists>c'. Chars (Rotate sample_descriptor [65]) 65 = Some c' \<and> Char.ID c' = 65 \<and>
      Page c' = 0 \<and> Channel c' = 15)"
proof -
  let ?r = "Rotate sample_descriptor [65]"
  have k: "keyed_by_id (Chars sample_descriptor)"
    by (simp add: keyed_by_id_def sample_descriptor_def sample_char_def)
  have e: "enumerates [65] (Chars sample_descriptor)"
    by (simp add: enumerates_def sample_descriptor_def)
  have c: "Chars sample_descriptor 65 = Some sample_char"
    by (simp add: sample_descriptor_def)
  note f = Rotate_frame [OF k e]
  from f have kern: "Kerning ?r = Kerning sample_descriptor" by blast
  from f have pages: "Pages ?r = Pages sample_descriptor" by blast
  from f have info: "(Info ?r)\<lparr>Padding := Padding (Info sample_descriptor),
      Spacing := Spacing (Info sample_descriptor)\<rparr> = Info sample_descriptor" by blast
  from f have common: "(Common ?r)\<lparr>LineHeight := LineHeight (Common sample_descriptor),
      Base := Base (Common sample_descriptor), ScaleW := ScaleW (Common sample_descriptor),
      ScaleH := ScaleH (Common sample_descriptor)\<rparr> = Common sample_descriptor" by blast
  from f have dom: "dom (Chars ?r) = dom (Chars sample_descriptor)" by blast
  from f c obtain c' where c': "Chars ?r 65 = Some c'" "Char.ID c' = Char.ID sample_char"
      "Page c' = Page sample_char" "Channel c' = Channel sample_char" by blast
  have 1: "Kerning ?r \<lparr>First = 65, Second = 66\<rparr> = Some \<lparr>Amount = - 1\<rparr>"
    unfolding kern by (simp add: sample_descriptor_def)
  have 2: "Pages ?r 0 = Some \<lparr>Page.ID = 0, File = ''arial_0.png''\<rparr>"
    unfolding pages by (simp add: sample_descriptor_def)
  have "Face (Info ?r) = Face ((Info ?r)\<lparr>Padding := Padding (Info sample_descriptor),
      Spacing := Spacing (Info sample_descriptor)\<rparr>)" by simp
  then have 3: "Face (Info ?r) = ''Arial''"
    unfolding info by (simp add: sample_descriptor_def sample_info_def)
  have "Size (Info ?r) = Size ((Info ?r)\<lparr>Padding := Padding (Info sample_descriptor),
      Spacing := Spacing (Info sample_descriptor)\<rparr>)" by simp
  then have 4: "Size (Info ?r) = 32"
    unfolding info by (simp add: sample_descriptor_def sample_info_def)
  have "Outline (Info ?r) = Outline ((Info ?r)\<lparr>Padding := Padding (Info sample_descriptor),
      Spacing := Spacing (Info sample_descriptor)\<rparr>)" by simp
  then have 5: "Outline (Info ?r) = 0"
    unfolding info by (simp add: sample_descriptor_def sample_info_def)
  have "Packed (Common ?r) = Packed ((Common ?r)\<lparr>LineHeight := LineHeight (Common sample_descriptor),
      Base := Base (Common sample_descriptor), ScaleW := ScaleW (Common sample_descriptor),
      ScaleH := ScaleH (Common sample_descriptor)\<rparr>)" by simp
  then have 6: "Packed (Common ?r) = False"
    unfolding common by (simp add: sample_descriptor_def sample_common_def)
  have "AlphaChannel (Common ?r) = AlphaChannel ((Common ?r)\<lparr>LineHeight := LineHeight (Common sample_descriptor),
      Base := Base (Common sample_descriptor), ScaleW := ScaleW (Common sample_descriptor),
      ScaleH := ScaleH (Common sample_descriptor)\<rparr>)" by simp
  then have 7: "AlphaChannel (Common ?r) = 1"
    unfolding common by (simp add: sample_descriptor_def sample_common_def)
  have 8: "dom (Chars ?r) = {65}"
    unfolding dom by (simp add: sample_descriptor_def)
  from c' have 9: "\<exists>c'. Chars ?r 65 = Some c' \<and> Char.ID c' = 65 \<and> Page c' = 0 \<and> Channel c' = 15"
    by (simp add: sample_char_def)
  from k e 1 2 3 4 5 6 7 8 9 show ?thesis by blast
qed

section \<open>Rotating twice\<close>

lemma rotate_char_twice:
  "rotate_char sw2 (rotate_char sw1 c) =
     c\<lparr>X := sw2 - X c - Width c, Y := sw1 - Y c - Height c, XAdvance := Width c + XOffset c\<rparr>"
  by (simp add: rotate_char_eq)

lemma Rotate_twice_Chars:
  assumes "keyed_by_id (Chars d)" and "enumerates ks1 (Chars d)"
    and "enumerates ks2 (Chars (Rotate d ks1))"
  shows "Chars (Rotate (Rotate d ks1) ks2) k =
     map_option (\<lambda>c. c\<lparr>X := ScaleW (Common d) - X c - Width c,
                         Y := ScaleH (Common d) - Y c - Height c,
                         XAdvance := Width c + XOffset c\<rparr>) (Chars d k)"
proof -
  have k1: "keyed_by_id (Chars (Rotate d ks1))"
    by (rule Rotate_keyed_by_id[OF assms(1,2)])
  show ?thesis
    by (cases "Chars d k")
      (simp_all add: Rotate_Chars[OF k1 assms(3)] Rotate_Chars[OF assms(1,2)] Rotate_ScaleH
        rotate_char_twice)
qed

lemma Rotate_twice_Padding:
  "Padding (Info (Rotate (Rotate d ks1) ks2)) =
     \<lparr>Up = Down (Padding (Info d)), Right = Left (Padding (Info d)),
      Down = Up (Padding (Info d)), Left = Right (Padding (Info d))\<rparr>"
  by (simp add: Rotate_Info)

lemma Rotate_twice_differs:
  "Rotate (Rotate sample_descriptor [65]) [65] \<noteq> sample_descriptor"
proof
  assume "Rotate (Rotate sample_descriptor [65]) [65] = sample_descriptor"
  then have "Padding (Info (Rotate (Rotate sample_descriptor [65]) [65])) =
      Padding (Info sample_descriptor)" by simp
  then show False
    by (simp add: Rotate_twice_Padding sample_descriptor_def sample_info_def)
qed

lemma sample_keyed: "keyed_by_id (Chars sample_descriptor)"
  by (simp add: keyed_by_id_def sample_descriptor_def sample_char_def)

lemma sample_enumerates: "enumerates [65] (Chars sample_descriptor)"
  by (simp add: enumerates_def sample_descriptor_def)

text \<open>
  C6. Rotating twice is not the identity: some descriptor differs from its double
  rotation. For every descriptor keyed by glyph id, and whatever orders the two iterations
  run in, two rotations give the rotation by 180 degrees: page width and page height are
  back, the padding has moved two steps clockwise (up and down exchanged, left and right
  exchanged), the spacing is back, and every glyph has x = scaleW - x - width and
  y = scaleH - y - height on the original page, its original width, height and offsets,
  and the advance width + xoffset.
\<close>

theorem Rotate_twice_half_turn:
  "(\<exists>d ks. keyed_by_id (Chars d) \<and> enumerates ks (Chars d) \<and> Rotate (Rotate d ks) ks \<noteq> d) \<and>
   (\<forall>d ks1 ks2.
      keyed_by_id (Chars d) \<and> enumerates ks1 (Chars d) \<and> enumerates ks2 (Chars (Rotate d ks1)) \<longrightarrow>
      ScaleW (Common (Rotate (Rotate d ks1) ks2)) = ScaleW (Common d) \<and>
      ScaleH (Common (Rotate (Rotate d ks1) ks2)) = ScaleH (Common d) \<and>
      Padding (Info (Rotate (Rotate d ks1) ks2)) =
        \<lparr>Up = Down (Padding (Info d)), Right = Left (Padding (Info d)),
         Down = Up (Padding (Info d)), Left = Right (Padding (Info d))\<rparr> \<and>
      Spacing (Info (Rotate (Rotate d ks1) ks2)) = Spacing (Info d) \<and>
      (\<forall>k c. Chars d k = Some c \<longrightarrow>
         (\<exists>c2. Chars (Rotate (Rotate d ks1) ks2) k = Some c2 \<and>
            X c2 = ScaleW (Common d) - X c - Width c \<and>
            Y c2 = ScaleH (Common d) - Y c - Height c \<and>
            Width c2 = Width c \<and> Height c2 = Height c \<and>
            XOffset c2 = XOffset c \<and> YOffset c2 = YOffset c \<and>
            XAdvance c2 = Width c + XOffset c)))"
proof (intro conjI allI impI)
  show "\<exists>d ks. keyed_by_id (Chars d) \<and> enumerates ks (Chars d) \<and> Rotate (Rotate d ks) ks \<noteq> d"
    using sample_keyed sample_enumerates Rotate_twice_differs by blast
next
  fix d ks1 ks2
  show "ScaleW (Common (Rotate (Rotate d ks1) ks2)) = ScaleW (Common d)"
    by (simp add: Rotate_ScaleW Rotate_ScaleH)
  show "ScaleH (Common (Rotate (Rotate d ks1) ks2)) = ScaleH (Common d)"
    by (simp add: Rotate_ScaleW Rotate_ScaleH)
  show "Padding (Info (Rotate (Rotate d ks1) ks2)) =
        \<lparr>Up = Down (Padding (Info d)), Right = Left (Padding (Info d)),
         Down = Up (Padding (Info d)), Left = Right (Padding (Info d))\<rparr>"
    by (rule Rotate_twice_Padding)
  show "Spacing (Info (Rotate (Rotate d ks1) ks2)) = Spacing (Info d)"
    by (simp add: Rotate_Info)
next
  fix d ks1 ks2 k c
  assume h: "keyed_by_id (Chars d) \<and> enumerates ks1 (Chars d) \<and> enumerates ks2 (Chars (Rotate d ks1))"
    and c: "Chars d k = Some c"
  from h have a: "keyed_by_id (Chars d)" "enumerates ks1 (Chars d)"
    "enumerates ks2 (Chars (Rotate d ks1))" by simp_all
  show "\<exists>c2. Chars (Rotate (Rotate d ks1) ks2) k = Some c2 \<and>
            X c2 = ScaleW (Common d) - X c - Width c \<and>
            Y c2 = ScaleH (Common d) - Y c - Height c \<and>
            Width c2 = Width c \<and> Height c2 = Height c \<and>
            XOffset c2 = XOffset c \<and> YOffset c2 = YOffset c \<and>
            XAdvance c2 = Width c + XOffset c"
    using c by (simp add: Rotate_twice_Chars[OF a])
qed

text \<open>
  The sample glyph (x=10, y=20, width=30, height=5, xoffset=1, advance 31) on the 256 by
  128 page ends at x = 256 - 10 - 30 = 216 and y = 128 - 20 - 5 = 103 with the advance
  30 + 1 = 31; the padding 1,2,3,4 ends as 3,4,1,2.
\<close>

theorem Rotate_twice_half_turn_witness:
  "keyed_by_id (Chars sample_descriptor) \<and> enumerates [65] (Chars sample_descriptor) \<and>
   enumerates [65] (Chars (Rotate sample_descriptor [65])) \<and>
   ScaleW (Common (Rotate (Rotate sample_descriptor [65]) [65])) = 256 \<and>
   ScaleH (Common (Rotate (Rotate sample_descriptor [65]) [65])) = 128 \<and>
   Padding (Info (Rotate (Rotate sample_descriptor [65]) [65])) =
     \<lparr>Up = 3, Right = 4, Down = 1, Left = 2\<rparr> \<and>
   (\<exists>c2. Chars (Rotate (Rotate sample_descriptor [65]) [65]) 65 = Some c2 \<and>
      X c2 = 216 \<and> Y c2 = 103 \<and> Width c2 = 30 \<and> Height c2 = 5 \<and> XAdvance c2 = 31)"
proof -
  let ?r2 = "Rotate (Rotate sample_descriptor [65]) [65]"
  have k: "keyed_by_id (Chars sample_descriptor)"
    by (simp add: keyed_by_id_def sample_descriptor_def sample_char_def)
  have e: "enumerates [65] (Chars sample_descriptor)"
    by (simp add: enumerates_def sample_descriptor_def)
  have e2: "enumerates [65] (Chars (Rotate sample_descriptor [65]))"
    using e by (simp add: enumerates_def Rotate_dom[OF k e])
  have c: "Chars sample_descriptor 65 = Some sample_char"
    by (simp add: sample_descriptor_def)
  have v: "ScaleW (Common sample_descriptor) = 256" "ScaleH (Common sample_descriptor) = 128"
    "Padding (Info sample_descriptor) = \<lparr>Up = 1, Right = 2, Down = 3, Left = 4\<rparr>"
    by (simp_all add: sample_descriptor_def sample_common_def sample_info_def)
  note t = Rotate_twice_half_turn [THEN conjunct2, rule_format, of sample_descriptor "[65]" "[65]",
      OF conjI [OF k conjI [OF e e2]]]
  from t have 1: "ScaleW (Common ?r2) = 256" using v by simp
  from t have 2: "ScaleH (Common ?r2) = 128" using v by simp
  from t have 3: "Padding (Info ?r2) = \<lparr>Up = 3, Right = 4, Down = 1, Left = 2\<rparr>"
    using v by simp
  from t c obtain c2 where "Chars ?r2 65 = Some c2"
    "X c2 = ScaleW (Common sample_descriptor) - X sample_char - Width sample_char"
    "Y c2 = ScaleH (Common sample_descriptor) - Y sample_char - Height sample_char"
    "Width c2 = Width sample_char" "Height c2 = Height sample_char"
    "XAdvance c2 = Width sample_char + XOffset sample_char"
    by blast
  then have 4: "\<exists>c2. Chars ?r2 65 = Some c2 \<and>
      X c2 = 216 \<and> Y c2 = 103 \<and> Width c2 = 30 \<and> Height c2 = 5 \<and> XAdvance c2 = 31"
    using v by (simp add: sample_char_def)
  from k e e2 1 2 3 4 show ?thesis by blast
qed

lemma digits_numeral [simp]:
  "digits (numeral n) = (if (numeral n :: nat) < 10 then [''0123456789'' ! numeral n]
     else digits (numeral n div 10) @ [''0123456789'' ! (numeral n mod 10)])"
  by (rule digits.simps)

lemma digits_0 [simp]: "digits 0 = ''0''"
  by (simp add: digits.simps)

lemma digits_1 [simp]: "digits (Suc 0) = ''1''"
  by (simp add: digits.simps)

section \<open>Layout of the serializer's output\<close>

lemma fold_append_lines:
  "fold (\<lambda>k acc. case m k of None \<Rightarrow> acc | Some v \<Rightarrow> acc @ f v @ nl) ks acc =
     acc @ concat (map (\<lambda>k. case m k of None \<Rightarrow> [] | Some v \<Rightarrow> f v @ nl) ks)"
  by (induction ks arbitrary: acc) (auto split: option.splits)

lemma lines_of_enumeration:
  assumes "enumerates ks m"
  shows "map (\<lambda>k. case m k of None \<Rightarrow> [] | Some v \<Rightarrow> f v @ nl) ks = map (\<lambda>k. f (the (m k)) @ nl) ks"
proof (rule map_cong[OF refl])
  fix k assume "k \<in> set ks"
  with assms have "k \<in> dom m" by (simp add: enumerates_def)
  then show "(case m k of None \<Rightarrow> [] | Some v \<Rightarrow> f v @ nl) = f (the (m k)) @ nl" by auto
qed

lemma enumerates_length:
  assumes "enumerates ks m"
  shows "length ks = card (dom m)"
  using assms by (metis enumerates_def distinct_card)

lemma enumerates_mset:
  assumes "enumerates ks m" and "enumerates ks' m"
  shows "mset ks = mset ks'"
  using assms by (simp add: enumerates_def set_eq_iff_mset_eq_distinct[symmetric])

lemma enumerates_unique:
  assumes "enumerates ks m" and "enumerates ks' m" and "card (dom m) \<le> 1"
  shows "ks = ks'"
proof -
  have l: "length ks \<le> 1" "length ks' \<le> 1"
    using assms by (simp_all add: enumerates_length)
  have s: "set ks = set ks'" using assms by (simp add: enumerates_def)
  show ?thesis
  proof (cases ks)
    case Nil
    with s show ?thesis by simp
  next
    case (Cons a as)
    with l have as: "as = []" by simp
    with Cons s l(2) show ?thesis by (cases ks') auto
  qed
qed

lemma Descriptor_String_parts:
  assumes "enumerates ps (Pages d)" and "enumerates cs (Chars d)"
  shows "Descriptor_String d ps cs =
     (Info_String (Info d) @ [CHR 0x0A] @ printCommon (Common d) (Pages d) @ [CHR 0x0A]) @
     concat (map (\<lambda>k. Page_String (the (Pages d k)) @ [CHR 0x0A]) ps) @
     (''chars count='' @ fmt_d (len (Chars d)) @ [CHR 0x0A]) @
     concat (map (\<lambda>k. Char_String (the (Chars d k)) @ [CHR 0x0A]) cs)"
  unfolding Descriptor_String_def Let_def fold_append_lines
    lines_of_enumeration[OF assms(1)] lines_of_enumeration[OF assms(2)]
  by simp

lemma concat_map_terminated:
  "concat (map (\<lambda>l. l @ nl) (map f ks)) = concat (map (\<lambda>k. f k @ nl) ks)"
  by (simp add: comp_def)

lemma Descriptor_String_Kerning:
  "Descriptor_String (d\<lparr>Kerning := kr\<rparr>) ps cs = Descriptor_String d ps cs"
  by (simp add: Descriptor_String_def)

text \<open>
  C7. When the two iterations enumerate the page map and the glyph map, the output is,
  each terminated by a newline and in this order: the info line, the common line, one
  line per page, the line \<open>chars count=\<close> with the number of glyphs, one line per
  glyph. The number of page lines is the size of the page map, the number of glyph
  lines the size of the glyph map, and the \<open>pages=\<close> field of the common line is the
  size of the page map. The kerning map has no influence on the output.
\<close>

theorem Descriptor_String_layout:
  assumes "enumerates ps (Pages d)" and "enumerates cs (Chars d)"
  shows "Descriptor_String d ps cs =
       concat (map (\<lambda>l. l @ [CHR 0x0A])
         ([Info_String (Info d), printCommon (Common d) (Pages d)] @
          map (\<lambda>k. Page_String (the (Pages d k))) ps @
          [''chars count='' @ fmt_d (int (card (dom (Chars d))))] @
          map (\<lambda>k. Char_String (the (Chars d k))) cs)) \<and>
     length ps = card (dom (Pages d)) \<and>
     length cs = card (dom (Chars d)) \<and>
     printCommon (Common d) (Pages d) =
       ''common lineHeight='' @ fmt_d (sint (LineHeight (Common d))) @
       '' base='' @ fmt_d (sint (Base (Common d))) @
       '' scaleW='' @ fmt_d (sint (ScaleW (Common d))) @
       '' scaleH='' @ fmt_d (sint (ScaleH (Common d))) @
       '' pages='' @ fmt_d (int (card (dom (Pages d)))) @
       '' packed='' @ fmt_d (sint (boolToInt (Packed (Common d)))) @
       '' alphaChnl='' @ fmt_d (sint (AlphaChannel (Common d))) @
       '' redChnl='' @ fmt_d (sint (RedChannel (Common d))) @
       '' greenChnl='' @ fmt_d (sint (GreenChannel (Common d))) @
       '' blueChnl='' @ fmt_d (sint (BlueChannel (Common d))) \<and>
     (\<forall>kr. Descriptor_String (d\<lparr>Kerning := kr\<rparr>) ps cs = Descriptor_String d ps cs)"
proof -
  have layout: "Descriptor_String d ps cs =
       concat (map (\<lambda>l. l @ [CHR 0x0A])
         ([Info_String (Info d), printCommon (Common d) (Pages d)] @
          map (\<lambda>k. Page_String (the (Pages d k))) ps @
          [''chars count='' @ fmt_d (int (card (dom (Chars d))))] @
          map (\<lambda>k. Char_String (the (Chars d k))) cs))"
    unfolding Descriptor_String_parts[OF assms]
    by (simp add: concat_map_terminated len_def comp_def)
  have common: "printCommon (Common d) (Pages d) =
       ''common lineHeight='' @ fmt_d (sint (LineHeight (Common d))) @
       '' base='' @ fmt_d (sint (Base (Common d))) @
       '' scaleW='' @ fmt_d (sint (ScaleW (Common d))) @
       '' scaleH='' @ fmt_d (sint (ScaleH (Common d))) @
       '' pages='' @ fmt_d (int (card (dom (Pages d)))) @
       '' packed='' @ fmt_d (sint (boolToInt (Packed (Common d)))) @
       '' alphaChnl='' @ fmt_d (sint (AlphaChannel (Common d))) @
       '' redChnl='' @ fmt_d (sint (RedChannel (Common d))) @
       '' greenChnl='' @ fmt_d (sint (GreenChannel (Common d))) @
       '' blueChnl='' @ fmt_d (sint (BlueChannel (Common d)))"
    by (simp only: printCommon_def len_def)
  show ?thesis
    using layout common enumerates_length[OF assms(1)] enumerates_length[OF assms(2)]
      Descriptor_String_Kerning
    by blast
qed

lemma sample_Info_String:
  \<open>Info_String (Info sample_descriptor) =
     ''info face="Arial" size=32 bold=0 italic=0 charset="" unicode=1 stretchH=100 smooth=1 aa=1 padding=1,2,3,4 spacing=5,7 outline=0''\<close>
  by (simp add: Info_String_def sample_descriptor_def sample_info_def fmt_d_def boolToInt_def)

lemma sample_printCommon:
  "printCommon (Common sample_descriptor) (Pages sample_descriptor) =
     ''common lineHeight=32 base=26 scaleW=256 scaleH=128 pages=1 packed=0 alphaChnl=1 redChnl=0 greenChnl=0 blueChnl=0''"
  by (simp add: printCommon_def sample_descriptor_def sample_common_def fmt_d_def boolToInt_def
      len_def)

lemma sample_Page_String:
  \<open>Page_String (the (Pages sample_descriptor 0)) = ''page id=0 file="arial_0.png"''\<close>
  by (simp add: Page_String_def sample_descriptor_def fmt_d_def)

lemma sample_Char_String:
  "Char_String sample_char =
     ''char id=65 x=10 y=20 width=30 height=5 xoffset=1 yoffset=2 xadvance=31 page=0 chnl=15''"
  by (simp add: fmt_d_def Char_String_def sample_char_def)

lemma sample_pages_enumerates: "enumerates [0] (Pages sample_descriptor)"
  by (simp add: enumerates_def sample_descriptor_def)

text \<open>
  The dump of the sample font: five lines, with \<open>pages=1\<close> and \<open>chars count=1\<close>, and
  nothing of its kerning pair.
\<close>

theorem Descriptor_String_layout_witness:
  \<open>enumerates [0] (Pages sample_descriptor) \<and> enumerates [65] (Chars sample_descriptor) \<and>
   Descriptor_String sample_descriptor [0] [65] =
     ''info face="Arial" size=32 bold=0 italic=0 charset="" unicode=1 stretchH=100 smooth=1 aa=1 padding=1,2,3,4 spacing=5,7 outline=0'' @ [CHR 0x0A] @
     ''common lineHeight=32 base=26 scaleW=256 scaleH=128 pages=1 packed=0 alphaChnl=1 redChnl=0 greenChnl=0 blueChnl=0'' @ [CHR 0x0A] @
     ''page id=0 file="arial_0.png"'' @ [CHR 0x0A] @
     ''chars count=1'' @ [CHR 0x0A] @
     ''char id=65 x=10 y=20 width=30 height=5 xoffset=1 yoffset=2 xadvance=31 page=0 chnl=15'' @ [CHR 0x0A] \<and>
   Descriptor_String (sample_descriptor\<lparr>Kerning := Map.empty\<rparr>) [0] [65] =
     Descriptor_String sample_descriptor [0] [65]\<close>
proof -
  have c: "Chars sample_descriptor 65 = Some sample_char" "card (dom (Chars sample_descriptor)) = 1"
    by (simp_all add: sample_descriptor_def)
  note t = Descriptor_String_layout [OF sample_pages_enumerates sample_enumerates]
  from t have "Descriptor_String sample_descriptor [0] [65] =
       concat (map (\<lambda>l. l @ [CHR 0x0A])
         ([Info_String (Info sample_descriptor),
           printCommon (Common sample_descriptor) (Pages sample_descriptor)] @
          map (\<lambda>k. Page_String (the (Pages sample_descriptor k))) [0] @
          [''chars count='' @ fmt_d (int (card (dom (Chars sample_descriptor))))] @
          map (\<lambda>k. Char_String (the (Chars sample_descriptor k))) [65]))"
    by blast
  moreover from t have "Descriptor_String (sample_descriptor\<lparr>Kerning := Map.empty\<rparr>) [0] [65] =
     Descriptor_String sample_descriptor [0] [65]"
    by blast
  ultimately show ?thesis
    using sample_pages_enumerates sample_enumerates
    by (simp add: sample_Info_String sample_printCommon sample_Page_String sample_Char_String c
        fmt_d_def)
qed

section \<open>The order of the page lines and of the glyph lines\<close>

text \<open>
  C8, as the code has it. The output is determined by the descriptor and by the two
  orders in which the runtime enumerates the page map and the glyph map. Two runs on the
  same descriptor have the same info line, common line and glyph count line, and the same
  page lines and glyph lines up to their order; they produce the same string when they
  enumerate in the same orders, and always when there is at most one page and at most
  one glyph.
\<close>

theorem Descriptor_String_up_to_order:
  assumes "enumerates ps (Pages d)" and "enumerates ps' (Pages d)"
    and "enumerates cs (Chars d)" and "enumerates cs' (Chars d)"
  shows "Descriptor_String d ps cs =
       (Info_String (Info d) @ [CHR 0x0A] @ printCommon (Common d) (Pages d) @ [CHR 0x0A]) @
       concat (map (\<lambda>k. Page_String (the (Pages d k)) @ [CHR 0x0A]) ps) @
       (''chars count='' @ fmt_d (len (Chars d)) @ [CHR 0x0A]) @
       concat (map (\<lambda>k. Char_String (the (Chars d k)) @ [CHR 0x0A]) cs) \<and>
     Descriptor_String d ps' cs' =
       (Info_String (Info d) @ [CHR 0x0A] @ printCommon (Common d) (Pages d) @ [CHR 0x0A]) @
       concat (map (\<lambda>k. Page_String (the (Pages d k)) @ [CHR 0x0A]) ps') @
       (''chars count='' @ fmt_d (len (Chars d)) @ [CHR 0x0A]) @
       concat (map (\<lambda>k. Char_String (the (Chars d k)) @ [CHR 0x0A]) cs') \<and>
     mset (map (\<lambda>k. Page_String (the (Pages d k)) @ [CHR 0x0A]) ps) =
       mset (map (\<lambda>k. Page_String (the (Pages d k)) @ [CHR 0x0A]) ps') \<and>
     mset (map (\<lambda>k. Char_String (the (Chars d k)) @ [CHR 0x0A]) cs) =
       mset (map (\<lambda>k. Char_String (the (Chars d k)) @ [CHR 0x0A]) cs') \<and>
     (ps = ps' \<and> cs = cs' \<longrightarrow> Descriptor_String d ps cs = Descriptor_String d ps' cs') \<and>
     (card (dom (Pages d)) \<le> 1 \<and> card (dom (Chars d)) \<le> 1 \<longrightarrow>
        Descriptor_String d ps cs = Descriptor_String d ps' cs')"
proof -
  have single: "card (dom (Pages d)) \<le> 1 \<and> card (dom (Chars d)) \<le> 1 \<longrightarrow>
        Descriptor_String d ps cs = Descriptor_String d ps' cs'"
  proof
    assume "card (dom (Pages d)) \<le> 1 \<and> card (dom (Chars d)) \<le> 1"
    then have "ps = ps'" "cs = cs'"
      using assms by (simp_all add: enumerates_unique)
    then show "Descriptor_String d ps cs = Descriptor_String d ps' cs'" by simp
  qed
  have same: "ps = ps' \<and> cs = cs' \<longrightarrow> Descriptor_String d ps cs = Descriptor_String d ps' cs'"
    by simp
  have pm: "mset (map (\<lambda>k. Page_String (the (Pages d k)) @ [CHR 0x0A]) ps) =
       mset (map (\<lambda>k. Page_String (the (Pages d k)) @ [CHR 0x0A]) ps')"
    by (simp add: enumerates_mset[OF assms(1,2)])
  have cm: "mset (map (\<lambda>k. Char_String (the (Chars d k)) @ [CHR 0x0A]) cs) =
       mset (map (\<lambda>k. Char_String (the (Chars d k)) @ [CHR 0x0A]) cs')"
    by (simp add: enumerates_mset[OF assms(3,4)])
  note p1 = Descriptor_String_parts[OF assms(1,3)]
  note p2 = Descriptor_String_parts[OF assms(2,4)]
  show ?thesis
    by (rule conjI[OF p1 conjI[OF p2 conjI[OF pm conjI[OF cm conjI[OF same single]]]]])
qed

lemma three_glyphs_pages: "enumerates [0] (Pages three_glyphs)"
  by (simp add: enumerates_def three_glyphs_def sample_descriptor_def)

lemma three_glyphs_order1: "enumerates [65, 66, 67] (Chars three_glyphs)"
  by (auto simp: enumerates_def three_glyphs_def)

lemma three_glyphs_order2: "enumerates [66, 65, 67] (Chars three_glyphs)"
  by (auto simp: enumerates_def three_glyphs_def)

lemma three_glyphs_lines:
  "Char_String (the (Chars three_glyphs 65)) =
     ''char id=65 x=10 y=20 width=30 height=5 xoffset=1 yoffset=2 xadvance=31 page=0 chnl=15''"
  "Char_String (the (Chars three_glyphs 66)) =
     ''char id=66 x=10 y=20 width=12 height=5 xoffset=1 yoffset=2 xadvance=31 page=0 chnl=15''"
  "Char_String (the (Chars three_glyphs 67)) =
     ''char id=67 x=10 y=20 width=45 height=5 xoffset=1 yoffset=2 xadvance=31 page=0 chnl=15''"
  by (simp_all add: three_glyphs_def Char_String_def sample_char_def fmt_d_def)

text \<open>
  Two runs on the font with the glyphs 65, 66 and 67, one enumerating them as 65, 66, 67
  and one as 66, 65, 67, print the same three glyph lines in different orders.
\<close>

theorem Descriptor_String_up_to_order_witness:
  "enumerates [0] (Pages three_glyphs) \<and> enumerates [65, 66, 67] (Chars three_glyphs) \<and>
   enumerates [66, 65, 67] (Chars three_glyphs) \<and>
   mset (map (\<lambda>k. Char_String (the (Chars three_glyphs k)) @ [CHR 0x0A]) [65, 66, 67]) =
   mset (map (\<lambda>k. Char_String (the (Chars three_glyphs k)) @ [CHR 0x0A]) [66, 65, 67]) \<and>
   Descriptor_String three_glyphs [0] [65, 66, 67] =
     (Info_String (Info three_glyphs) @ [CHR 0x0A] @
      printCommon (Common three_glyphs) (Pages three_glyphs) @ [CHR 0x0A]) @
     concat (map (\<lambda>k. Page_String (the (Pages three_glyphs k)) @ [CHR 0x0A]) [0]) @
     (''chars count='' @ fmt_d (len (Chars three_glyphs)) @ [CHR 0x0A]) @
     concat (map (\<lambda>k. Char_String (the (Chars three_glyphs k)) @ [CHR 0x0A]) [65, 66, 67])"
proof -
  note t = Descriptor_String_up_to_order [OF three_glyphs_pages three_glyphs_pages
      three_glyphs_order1 three_glyphs_order2]
  note m = t [THEN conjunct2, THEN conjunct2, THEN conjunct2, THEN conjunct1]
  note s = t [THEN conjunct1]
  show ?thesis
    by (rule conjI[OF three_glyphs_pages conjI[OF three_glyphs_order1
          conjI[OF three_glyphs_order2 conjI[OF m s]]]])
qed

text \<open>
  The output is not a function of the descriptor alone: on that font the same descriptor
  gives two different strings when the runtime enumerates the glyphs as 65, 66, 67 and
  as 66, 65, 67.
\<close>

theorem Descriptor_String_order_counterexample:
  "enumerates [0] (Pages three_glyphs) \<and> enumerates [65, 66, 67] (Chars three_glyphs) \<and>
   enumerates [66, 65, 67] (Chars three_glyphs) \<and>
   Descriptor_String three_glyphs [0] [65, 66, 67] \<noteq> Descriptor_String three_glyphs [0] [66, 65, 67]"
  unfolding Descriptor_String_parts [OF three_glyphs_pages three_glyphs_order1]
    Descriptor_String_parts [OF three_glyphs_pages three_glyphs_order2]
  using three_glyphs_pages three_glyphs_order1 three_glyphs_order2
  by (simp add: three_glyphs_lines)

section \<open>Malformed integers end the parse\<close>

lemma undecodable_iff:
  "undecodable tag (k, v) \<longleftrightarrow> (\<exists>kd. attr_kind tag k = Some kd \<and> decode_val kd v = None)"
  by (simp add: undecodable_def split: option.splits)

lemma decode_attrs_Inl:
  "decode_attrs tag attrs = Inl k \<Longrightarrow> list_ex (\<lambda>kv. fst kv = k \<and> undecodable tag kv) attrs"
proof (induction attrs)
  case Nil
  then show ?case by simp
next
  case (Cons kv r)
  obtain k' v where kv: "kv = (k', v)" by (cases kv)
  show ?case
  proof (cases "attr_kind tag k'")
    case None
    with Cons kv show ?thesis by simp
  next
    case (Some kd)
    show ?thesis
    proof (cases "decode_val kd v")
      case None
      with Some Cons.prems kv have "k' = k" by simp
      moreover from None Some have "undecodable tag (k', v)" by (auto simp: undecodable_iff)
      ultimately show ?thesis using kv by simp
    next
      case (Some dv)
      with \<open>attr_kind tag k' = Some kd\<close> Cons.prems kv
      have "decode_attrs tag r = Inl k" by (simp split: sum.splits)
      with Cons.IH show ?thesis by simp
    qed
  qed
qed

lemma decode_attrs_Inr:
  "decode_attrs tag attrs = Inr ds \<Longrightarrow> \<not> list_ex (undecodable tag) attrs"
proof (induction attrs arbitrary: ds)
  case Nil
  then show ?case by simp
next
  case (Cons kv r)
  obtain k' v where kv: "kv = (k', v)" by (cases kv)
  show ?case
  proof (cases "attr_kind tag k'")
    case None
    then have "\<not> undecodable tag (k', v)" by (simp add: undecodable_iff)
    with None Cons kv show ?thesis by simp
  next
    case (Some kd)
    with Cons.prems kv obtain dv ds' where dv: "decode_val kd v = Some dv"
      and r: "decode_attrs tag r = Inr ds'"
      by (auto split: option.splits sum.splits)
    from dv Some have "\<not> undecodable tag (k', v)" by (simp add: undecodable_iff)
    with Cons.IH[OF r] kv show ?thesis by simp
  qed
qed

lemma parse_line_Inl:
  assumes "parse_line name n l d = Inl e"
  shows "\<exists>tag key. e = MalformedValue name n tag key \<and> malformed_at l tag key"
  using assms
  by (auto simp: parse_line_def malformed_at_def Let_def dest: decode_attrs_Inl
      split: prod.splits if_splits sum.splits)

lemma parse_line_Inr:
  assumes "parse_line name n l d = Inr d'"
  shows "\<not> malformed_at l tag key"
  using assms
  by (auto simp: parse_line_def malformed_at_def Let_def list_ex_iff dest!: decode_attrs_Inr
      split: prod.splits if_splits sum.splits)

lemma bad_int_line_malformed:
  assumes "bad_int_line l"
  shows "\<exists>tag key. malformed_at l tag key"
proof -
  from assms obtain attrs kv where t: "fst (split_tag l) \<in> set known_tags"
    and lx: "lex_attrs Skip (snd (split_tag l)) = Inr attrs"
    and kv: "kv \<in> set attrs" "attr_kind (fst (split_tag l)) (fst kv) = Some IntK"
      "decode_val IntK (snd kv) = None"
    by (auto simp: bad_int_line_def list_ex_iff split: sum.splits)
  from kv(2,3) have "undecodable (fst (split_tag l)) kv"
    by (simp add: undecodable_def)
  with kv(1) have "list_ex (\<lambda>kv'. fst kv' = fst kv \<and> undecodable (fst (split_tag l)) kv') attrs"
    by (auto simp: list_ex_iff)
  with t lx have "malformed_at l (fst (split_tag l)) (fst kv)"
    by (simp add: malformed_at_def)
  then show ?thesis by blast
qed

lemma parse_lines_Inr:
  "parse_lines name n ls d = Inr d' \<Longrightarrow> j < length ls \<Longrightarrow> \<not> malformed_at (ls ! j) tag key"
proof (induction ls arbitrary: n d j)
  case Nil
  then show ?case by simp
next
  case (Cons l ls)
  from Cons.prems(1) obtain d1 where l: "parse_line name n l d = Inr d1"
    and r: "parse_lines name (Suc n) ls d1 = Inr d'"
    by (auto split: sum.splits)
  show ?case
  proof (cases j)
    case 0
    with l show ?thesis by (simp add: parse_line_Inr)
  next
    case (Suc j')
    with Cons.prems(2) have "j' < length ls" by simp
    from Cons.IH[OF r this] Suc show ?thesis by simp
  qed
qed

lemma parse_lines_Inl:
  "parse_lines name n ls d = Inl e \<Longrightarrow>
     \<exists>m tag key. m < length ls \<and> e = MalformedValue name (n + m) tag key \<and>
        malformed_at (ls ! m) tag key \<and> (\<forall>j<m. \<forall>t k. \<not> malformed_at (ls ! j) t k)"
proof (induction ls arbitrary: n d)
  case Nil
  then show ?case by simp
next
  case (Cons l ls)
  show ?case
  proof (cases "parse_line name n l d")
    case (Inl e')
    with Cons.prems have "e' = e" by simp
    with Inl obtain tag key where "e = MalformedValue name n tag key" "malformed_at l tag key"
      using parse_line_Inl by blast
    then have "0 < length (l # ls) \<and> e = MalformedValue name (n + 0) tag key \<and>
        malformed_at ((l # ls) ! 0) tag key \<and> (\<forall>j<0. \<forall>t k. \<not> malformed_at ((l # ls) ! j) t k)"
      by simp
    then show ?thesis by blast
  next
    case (Inr d1)
    with Cons.prems have "parse_lines name (Suc n) ls d1 = Inl e" by simp
    from Cons.IH[OF this] obtain m tag key where m: "m < length ls"
      "e = MalformedValue name (Suc n + m) tag key" "malformed_at (ls ! m) tag key"
      "\<forall>j<m. \<forall>t k. \<not> malformed_at (ls ! j) t k"
      by blast
    have first: "\<forall>j<Suc m. \<forall>t k. \<not> malformed_at ((l # ls) ! j) t k"
    proof (intro allI impI)
      fix j t k assume "j < Suc m"
      then show "\<not> malformed_at ((l # ls) ! j) t k"
        using m(4) parse_line_Inr[OF Inr] by (cases j) auto
    qed
    from m(1-3) first
    have "Suc m < length (l # ls) \<and> e = MalformedValue name (n + Suc m) tag key \<and>
        malformed_at ((l # ls) ! Suc m) tag key \<and>
        (\<forall>j<Suc m. \<forall>t k. \<not> malformed_at ((l # ls) ! j) t k)"
      by simp
    then show ?thesis by blast
  qed
qed

lemma parse_line_rename_Inl:
  "parse_line name n l d = Inl (MalformedValue name n' t k) \<Longrightarrow>
   parse_line name' n l d = Inl (MalformedValue name' n' t k)"
  by (auto simp: parse_line_def Let_def split: prod.splits if_splits sum.splits)

lemma parse_line_rename_Inr:
  "parse_line name n l d = Inr d' \<Longrightarrow> parse_line name' n l d = Inr d'"
  by (auto simp: parse_line_def Let_def split: prod.splits if_splits sum.splits)

lemma parse_lines_rename:
  "parse_lines name n ls d = Inl (MalformedValue name n' t k) \<Longrightarrow>
   parse_lines name' n ls d = Inl (MalformedValue name' n' t k)"
proof (induction ls arbitrary: n d)
  case Nil
  then show ?case by simp
next
  case (Cons l ls)
  show ?case
  proof (cases "parse_line name n l d")
    case (Inl e)
    with Cons.prems have "parse_line name n l d = Inl (MalformedValue name n' t k)" by simp
    from parse_line_rename_Inl[OF this, of name'] show ?thesis by simp
  next
    case (Inr d1)
    with Cons.prems have "parse_lines name (Suc n) ls d1 = Inl (MalformedValue name n' t k)"
      by simp
    from Cons.IH[OF this] parse_line_rename_Inr[OF Inr, of name'] show ?thesis by simp
  qed
qed

lemma closeChecked_error: "closeChecked cErr (Some e) = Some e"
  by (simp add: closeChecked_def)

text \<open>
  C9. Let a source hold, as its line number \<open>i + 1\<close>, a line with a known tag on which
  an integer-valued attribute has a value that is not an integer token. Then parsing
  fails with a malformed-value error and returns no descriptor, through the parser and
  through both entry points, whatever the outcome of closing the file. The error names
  the source, the number \<open>n\<close> of the first line of the source with a value that cannot
  be decoded (so \<open>n\<close> is at most \<open>i + 1\<close>, and it is \<open>i + 1\<close> when no earlier line is
  malformed), the tag of that line and a key of that line whose value cannot be decoded.
  In every case the parser returns either a descriptor or an error, never both and
  never neither.
\<close>

theorem parse_malformed_int_fails:
  assumes "i < length (lines r)" and "bad_int_line (lines r ! i)"
  shows "\<exists>n tag key.
     1 \<le> n \<and> n \<le> Suc i \<and>
     malformed_at (lines r ! (n - 1)) tag key \<and>
     (\<forall>j<n - 1. \<forall>t k. \<not> malformed_at (lines r ! j) t k) \<and>
     ((\<forall>j<i. \<forall>t k. \<not> malformed_at (lines r ! j) t k) \<longrightarrow> n = Suc i) \<and>
     (\<forall>name. parseDescriptor name r = (None, Some (MalformedValue name n tag key))) \<and>
     ReadDescriptor r = (None, Some (MalformedValue ''bmfont'' n tag key)) \<and>
     (\<forall>os_Open f_Close path. os_Open path = Inr r \<longrightarrow>
        LoadDescriptor os_Open f_Close path =
          (None, Some (MalformedValue (filepath_Base path) n tag key))) \<and>
     (\<forall>name r'. (fst (parseDescriptor name r') = None) \<noteq> (snd (parseDescriptor name r') = None))"
proof -
  from bad_int_line_malformed[OF assms(2)] obtain t0 k0
    where bad: "malformed_at (lines r ! i) t0 k0" by blast
  obtain e where e: "parse_lines [] 1 (lines r) empty_Descriptor = Inl e"
  proof (cases "parse_lines [] 1 (lines r) empty_Descriptor")
    case (Inl e)
    then show ?thesis by (rule that)
  next
    case (Inr d)
    from parse_lines_Inr[OF this assms(1)] bad show ?thesis by blast
  qed
  from parse_lines_Inl[OF e] obtain m tag key where m: "m < length (lines r)"
    "e = MalformedValue [] (1 + m) tag key" "malformed_at (lines r ! m) tag key"
    "\<forall>j<m. \<forall>t k. \<not> malformed_at (lines r ! j) t k"
    by blast
  have mi: "m \<le> i"
  proof (rule ccontr)
    assume "\<not> m \<le> i"
    then have "i < m" by simp
    with m(4) bad show False by blast
  qed
  have first: "(\<forall>j<i. \<forall>t k. \<not> malformed_at (lines r ! j) t k) \<longrightarrow> Suc m = Suc i"
  proof
    assume a: "\<forall>j<i. \<forall>t k. \<not> malformed_at (lines r ! j) t k"
    have "\<not> m < i" using a m(3) by blast
    with mi show "Suc m = Suc i" by simp
  qed
  have lines: "parse_lines name 1 (lines r) empty_Descriptor = Inl (MalformedValue name (Suc m) tag key)"
    for name
    using e m(2) parse_lines_rename[of "[]" 1 "lines r" empty_Descriptor "Suc m" tag key name]
    by simp
  have p: "parseDescriptor name r = (None, Some (MalformedValue name (Suc m) tag key))" for name
    by (simp only: parseDescriptor_def lines sum.case)
  have rd: "ReadDescriptor r = (None, Some (MalformedValue ''bmfont'' (Suc m) tag key))"
    by (simp only: ReadDescriptor_def p)
  have ld: "LoadDescriptor os_Open f_Close path =
      (None, Some (MalformedValue (filepath_Base path) (Suc m) tag key))"
    if "os_Open path = Inr r" for os_Open f_Close path
    using that by (simp add: LoadDescriptor_def p closeChecked_error)
  have one: "(fst (parseDescriptor name r') = None) \<noteq> (snd (parseDescriptor name r') = None)"
    for name r'
    by (simp add: parseDescriptor_def split: sum.splits)
  have n1: "1 \<le> Suc m" by simp
  have n2: "Suc m \<le> Suc i" using mi by simp
  have n3: "malformed_at (lines r ! (Suc m - 1)) tag key" using m(3) by simp
  have n4: "\<forall>j<Suc m - 1. \<forall>t k. \<not> malformed_at (lines r ! j) t k" using m(4) by simp
  have n6: "\<forall>name. parseDescriptor name r = (None, Some (MalformedValue name (Suc m) tag key))"
    using p by (rule allI)
  have n8: "\<forall>os_Open f_Close path. os_Open path = Inr r \<longrightarrow>
        LoadDescriptor os_Open f_Close path =
          (None, Some (MalformedValue (filepath_Base path) (Suc m) tag key))"
    using ld by (intro allI impI)
  have n9: "\<forall>name r'. (fst (parseDescriptor name r') = None) \<noteq> (snd (parseDescriptor name r') = None)"
    using one by (intro allI)
  have all: "1 \<le> Suc m \<and> Suc m \<le> Suc i \<and>
     malformed_at (lines r ! (Suc m - 1)) tag key \<and>
     (\<forall>j<Suc m - 1. \<forall>t k. \<not> malformed_at (lines r ! j) t k) \<and>
     ((\<forall>j<i. \<forall>t k. \<not> malformed_at (lines r ! j) t k) \<longrightarrow> Suc m = Suc i) \<and>
     (\<forall>name. parseDescriptor name r = (None, Some (MalformedValue name (Suc m) tag key))) \<and>
     ReadDescriptor r = (None, Some (MalformedValue ''bmfont'' (Suc m) tag key)) \<and>
     (\<forall>os_Open f_Close path. os_Open path = Inr r \<longrightarrow>
        LoadDescriptor os_Open f_Close path =
          (None, Some (MalformedValue (filepath_Base path) (Suc m) tag key))) \<and>
     (\<forall>name r'. (fst (parseDescriptor name r') = None) \<noteq> (snd (parseDescriptor name r') = None))"
    by (rule conjI[OF n1 conjI[OF n2 conjI[OF n3 conjI[OF n4 conjI[OF first conjI[OF n6
          conjI[OF rd conjI[OF n8 n9]]]]]]]])
  show ?thesis
    by (rule exI[where x = "Suc m"], rule exI[where x = tag], rule exI[where x = key], rule all)
qed

lemma bad_x_tag0: "fst (split_tag ''chars count=1'') = ''chars''"
  by (simp add: split_tag_def is_space_def)

lemma bad_x_rest0: "snd (split_tag ''chars count=1'') = '' count=1''"
  by (simp add: split_tag_def is_space_def)

lemma bad_x_lex0: "lex_attrs Skip '' count=1'' = Inr [(''count'', Bare ''1'')]"
  by (simp add: is_space_def)

lemma bad_x_tag2: "fst (split_tag ''char id=65 x=1O y=20 width=30'') = ''char''"
  by (simp add: split_tag_def is_space_def)

lemma bad_x_rest2:
  "snd (split_tag ''char id=65 x=1O y=20 width=30'') = '' id=65 x=1O y=20 width=30''"
  by (simp add: split_tag_def is_space_def)

lemma bad_x_lex2:
  "lex_attrs Skip '' id=65 x=1O y=20 width=30'' =
     Inr [(''id'', Bare ''65''), (''x'', Bare ''1O''), (''y'', Bare ''20''), (''width'', Bare ''30'')]"
  by (simp add: is_space_def)

lemma bad_x_ints:
  "parse_int ''1'' \<noteq> None" "parse_int ''65'' \<noteq> None" "parse_int ''1O'' = None"
  "parse_int ''20'' \<noteq> None" "parse_int ''30'' \<noteq> None"
  by (simp_all add: parse_int_def is_digit_def decimal_def)

lemma bad_x_kinds:
  "attr_kind ''chars'' ''count'' = Some IntK" "attr_kind ''char'' ''id'' = Some IntK"
  "attr_kind ''char'' ''x'' = Some IntK" "attr_kind ''char'' ''y'' = Some IntK"
  "attr_kind ''char'' ''width'' = Some IntK"
  by (simp_all add: attr_kind_def)

lemma bad_x_undecodable:
  "\<not> undecodable ''chars'' (''count'', Bare ''1'')"
  "\<not> undecodable ''char'' (''id'', Bare ''65'')"
  "undecodable ''char'' (''x'', Bare ''1O'')"
  "\<not> undecodable ''char'' (''y'', Bare ''20'')"
  "\<not> undecodable ''char'' (''width'', Bare ''30'')"
  using bad_x_ints by (simp_all add: undecodable_def bad_x_kinds)

lemma bad_x_line0: "\<not> malformed_at ''chars count=1'' t k"
  unfolding malformed_at_def bad_x_tag0 bad_x_rest0 bad_x_lex0
  by (auto simp: bad_x_undecodable)

lemma bad_x_line1: "\<not> malformed_at [] t k"
  by (simp add: malformed_at_def split_tag_def known_tags_def)

lemma bad_x_line2:
  "malformed_at ''char id=65 x=1O y=20 width=30'' t k \<longleftrightarrow> t = ''char'' \<and> k = ''x''"
  unfolding malformed_at_def bad_x_tag2 bad_x_rest2 bad_x_lex2
  by (auto simp: bad_x_undecodable known_tags_def)

lemma bad_x_bad_int: "bad_int_line ''char id=65 x=1O y=20 width=30''"
  unfolding bad_int_line_def bad_x_tag2 bad_x_rest2 bad_x_lex2
  using bad_x_ints(3) by (simp add: bad_x_kinds known_tags_def)

text \<open>
  A source whose third line is \<open>char id=65 x=1O y=20 width=30\<close>, with the letter O in
  the value of x: the parse fails with the malformed value of \<open>x\<close> on the \<open>char\<close> line
  3, and loading it from a file returns that error and no descriptor even when closing
  the file fails as well.
\<close>

theorem parse_malformed_int_fails_witness:
  "2 < length (lines bad_x_source) \<and> bad_int_line (lines bad_x_source ! 2) \<and>
   parseDescriptor ''font.fnt'' bad_x_source =
     (None, Some (MalformedValue ''font.fnt'' 3 ''char'' ''x'')) \<and>
   ReadDescriptor bad_x_source = (None, Some (MalformedValue ''bmfont'' 3 ''char'' ''x'')) \<and>
   LoadDescriptor (\<lambda>path. Inr bad_x_source) (Some (OSError ''close'')) ''/tmp/font.fnt'' =
     (None, Some (MalformedValue ''font.fnt'' 3 ''char'' ''x''))"
proof -
  have l: "lines bad_x_source ! 0 = ''chars count=1''" "lines bad_x_source ! 1 = []"
    "lines bad_x_source ! 2 = ''char id=65 x=1O y=20 width=30''"
    by (simp_all add: bad_x_source_def)
  have len: "2 < length (lines bad_x_source)" by (simp add: bad_x_source_def)
  have bad: "bad_int_line (lines bad_x_source ! 2)"
    by (simp only: l bad_x_bad_int)
  have before: "\<forall>j<2. \<forall>t k. \<not> malformed_at (lines bad_x_source ! j) t k"
  proof (intro allI impI)
    fix j :: nat and t k assume "j < 2"
    then have "j = 0 \<or> j = 1" by auto
    then show "\<not> malformed_at (lines bad_x_source ! j) t k"
    proof
      assume "j = 0"
      then show ?thesis by (simp only: l bad_x_line0 not_False_eq_True)
    next
      assume "j = 1"
      then show ?thesis by (simp only: l bad_x_line1 not_False_eq_True)
    qed
  qed
  have base: "filepath_Base ''/tmp/font.fnt'' = ''font.fnt''"
    by (simp add: filepath_Base_def)
  from parse_malformed_int_fails [OF len bad] obtain n tag key where
    n: "malformed_at (lines bad_x_source ! (n - 1)) tag key"
      "(\<forall>j<2. \<forall>t k. \<not> malformed_at (lines bad_x_source ! j) t k) \<longrightarrow> n = Suc 2"
    and p: "\<forall>name. parseDescriptor name bad_x_source = (None, Some (MalformedValue name n tag key))"
    and rd: "ReadDescriptor bad_x_source = (None, Some (MalformedValue ''bmfont'' n tag key))"
    and ld: "\<forall>os_Open f_Close path. os_Open path = Inr bad_x_source \<longrightarrow>
        LoadDescriptor os_Open f_Close path =
          (None, Some (MalformedValue (filepath_Base path) n tag key))"
    by (elim exE conjE) (rule that; assumption)
  from n(2) before have n3: "n = 3" by simp
  from n(1) have "malformed_at (lines bad_x_source ! 2) tag key"
    unfolding n3 by simp
  then have tk: "tag = ''char''" "key = ''x''"
    by (simp_all only: l bad_x_line2)
  from p have 1: "parseDescriptor ''font.fnt'' bad_x_source =
     (None, Some (MalformedValue ''font.fnt'' 3 ''char'' ''x''))"
    unfolding n3 tk by (rule spec)
  from rd have 2: "ReadDescriptor bad_x_source = (None, Some (MalformedValue ''bmfont'' 3 ''char'' ''x''))"
    unfolding n3 tk .
  from ld have "LoadDescriptor (\<lambda>path. Inr bad_x_source) (Some (OSError ''close'')) ''/tmp/font.fnt'' =
     (None, Some (MalformedValue (filepath_Base ''/tmp/font.fnt'') n tag key))"
    by simp
  then have 3: "LoadDescriptor (\<lambda>path. Inr bad_x_source) (Some (OSError ''close'')) ''/tmp/font.fnt'' =
     (None, Some (MalformedValue ''font.fnt'' 3 ''char'' ''x''))"
    unfolding n3 tk base .
  show ?thesis
    by (rule conjI[OF len conjI[OF bad conjI[OF 1 conjI[OF 2 3]]]])
qed

section \<open>The parser stores glyphs under their own ids\<close>

lemma store_keyed_by_id:
  "keyed_by_id (Chars d) \<Longrightarrow> keyed_by_id (Chars (store tag ds d))"
  by (simp add: store_def Let_def keyed_by_id_upd)

lemma parse_line_keyed_by_id:
  "parse_line name n l d = Inr d' \<Longrightarrow> keyed_by_id (Chars d) \<Longrightarrow> keyed_by_id (Chars d')"
  by (auto simp: parse_line_def Let_def store_keyed_by_id split: prod.splits if_splits sum.splits)

lemma parse_lines_keyed_by_id:
  "parse_lines name n ls d = Inr d' \<Longrightarrow> keyed_by_id (Chars d) \<Longrightarrow> keyed_by_id (Chars d')"
proof (induction ls arbitrary: n d)
  case Nil
  then show ?case by simp
next
  case (Cons l ls)
  from Cons.prems(1) obtain d1 where l: "parse_line name n l d = Inr d1"
    and r: "parse_lines name (Suc n) ls d1 = Inr d'"
    by (auto split: sum.splits)
  from parse_line_keyed_by_id[OF l Cons.prems(2)] have "keyed_by_id (Chars d1)" .
  from Cons.IH[OF r this] show ?case .
qed

lemma parseDescriptor_keyed_by_id:
  assumes "parseDescriptor name r = (Some d, e)"
  shows "keyed_by_id (Chars d)"
proof -
  have k0: "keyed_by_id (Chars empty_Descriptor)"
    by (simp add: keyed_by_id_def empty_Descriptor_def)
  from assms have "parse_lines name 1 (lines r) empty_Descriptor = Inr d"
    by (auto simp: parseDescriptor_def split: sum.splits if_splits)
  from parse_lines_keyed_by_id[OF this k0] show ?thesis .
qed

end
